theory Spec2Isabelle
  imports Main
begin

section \<open>Python strings and the builtins the archiver relies on\<close>

text \<open>
  The archiver (\<^verbatim>\<open>src/main.py\<close>) is a Python program. Its strings are modelled as
  \<^typ>\<open>string\<close>, restricted to ASCII: case mapping touches the 26 letters only and
  the white space of \<^verbatim>\<open>str.strip\<close> and \<^verbatim>\<open>int\<close> is the ASCII white space
  (tab, line feed, vertical tab, form feed, carriage return, the four separators
  \<^verbatim>\<open>0x1c\<close> to \<^verbatim>\<open>0x1f\<close> and the blank). Exceptions are values of
  \<open>py_error\<close>; a call that may raise returns \<open>py_error + 'a\<close>.
\<close>

datatype py_error = ValueError | OSError | OverflowError | RegexError

definition upper_char :: "char \<Rightarrow> char" where
  "upper_char c =
     (case map_of (zip ''abcdefghijklmnopqrstuvwxyz'' ''ABCDEFGHIJKLMNOPQRSTUVWXYZ'') c of
        Some u \<Rightarrow> u | None \<Rightarrow> c)"

definition lower_char :: "char \<Rightarrow> char" where
  "lower_char c =
     (case map_of (zip ''ABCDEFGHIJKLMNOPQRSTUVWXYZ'' ''abcdefghijklmnopqrstuvwxyz'') c of
        Some l \<Rightarrow> l | None \<Rightarrow> c)"

definition str_upper :: "string \<Rightarrow> string" where
  "str_upper s = map upper_char s"

definition str_lower :: "string \<Rightarrow> string" where
  "str_lower s = map lower_char s"

definition is_space :: "char \<Rightarrow> bool" where
  "is_space c = (c \<in> set [CHR 0x09, CHR 0x0A, CHR 0x0B, CHR 0x0C, CHR 0x0D,
                            CHR 0x1C, CHR 0x1D, CHR 0x1E, CHR 0x1F, CHR '' ''])"

definition str_strip :: "string \<Rightarrow> string" where
  "str_strip s = rev (dropWhile is_space (rev (dropWhile is_space s)))"

definition endswith :: "string \<Rightarrow> string \<Rightarrow> bool" where
  "endswith s suf = (length suf \<le> length s \<and> drop (length s - length suf) s = suf)"

text \<open>\<^verbatim>\<open>s[:-2]\<close>: everything but the last two characters.\<close>

definition drop_last2 :: "string \<Rightarrow> string" where
  "drop_last2 s = take (length s - 2) s"

text \<open>\<^verbatim>\<open>pat in s\<close> on strings: \<open>pat\<close> occurs as a contiguous piece of \<open>s\<close>.\<close>

fun startswith :: "string \<Rightarrow> string \<Rightarrow> bool" where
  "startswith s [] = True"
| "startswith [] (p # ps) = False"
| "startswith (c # cs) (p # ps) = (c = p \<and> startswith cs ps)"

fun str_contains :: "string \<Rightarrow> string \<Rightarrow> bool" where
  "str_contains pat [] = (pat = [])"
| "str_contains pat (c # cs) = (startswith (c # cs) pat \<or> str_contains pat cs)"

text \<open>
  \<^verbatim>\<open>int(s)\<close> in base ten: white space around the text is dropped, one sign may
  lead, then come decimal digits, where single underscores may stand between two digits.
  Anything else raises \<^verbatim>\<open>ValueError\<close>.
\<close>

definition digit_val :: "char \<Rightarrow> int option" where
  "digit_val c = map_of (zip ''0123456789'' [0, 1, 2, 3, 4, 5, 6, 7, 8, 9]) c"

fun py_digits :: "int \<Rightarrow> string \<Rightarrow> int option" where
  "py_digits acc [] = Some acc"
| "py_digits acc [c] =
     (case digit_val c of Some d \<Rightarrow> Some (acc * 10 + d) | None \<Rightarrow> None)"
| "py_digits acc (c # c' # cs) =
     (case digit_val c of
        Some d \<Rightarrow> py_digits (acc * 10 + d) (c' # cs)
      | None \<Rightarrow>
          (if c = CHR ''_'' then
             (case digit_val c' of
                Some d' \<Rightarrow> py_digits (acc * 10 + d') cs
              | None \<Rightarrow> None)
           else None))"

definition py_unsigned :: "string \<Rightarrow> int option" where
  "py_unsigned s =
     (case s of
        [] \<Rightarrow> None
      | c # cs \<Rightarrow> (case digit_val c of Some d \<Rightarrow> py_digits d cs | None \<Rightarrow> None))"

definition py_int :: "string \<Rightarrow> py_error + int" where
  "py_int s =
     (let t = str_strip s;
          r = (case t of
                 [] \<Rightarrow> None
               | c # cs \<Rightarrow>
                   if c = CHR ''-'' then map_option uminus (py_unsigned cs)
                   else if c = CHR ''+'' then py_unsigned cs
                   else py_unsigned t)
      in case r of None \<Rightarrow> Inl ValueError | Some n \<Rightarrow> Inr n)"

section \<open>SizeParser: \<^verbatim>\<open>parse_size\<close>\<close>

text \<open>
  \<^verbatim>\<open>parse_size\<close> returns 0 for the empty string, otherwise upper-cases and strips
  the text and tries the suffixes KB, MB and GB in this order. The \<^verbatim>\<open>ValueError\<close>
  of \<^verbatim>\<open>int\<close> is not caught: it is the size parser's format error.
\<close>

definition parse_size :: "string \<Rightarrow> py_error + int" where
  "parse_size size_str =
     (if size_str = [] then Inr 0
      else
        let s = str_strip (str_upper size_str) in
        if endswith s ''KB'' then map_sum id (\<lambda>n. n * 1024) (py_int (drop_last2 s))
        else if endswith s ''MB'' then map_sum id (\<lambda>n. n * 1024 * 1024) (py_int (drop_last2 s))
        else if endswith s ''GB'' then
          map_sum id (\<lambda>n. n * 1024 * 1024 * 1024) (py_int (drop_last2 s))
        else py_int s)"



section \<open>The file system seen by one folder run\<close>

text \<open>
  A path is the list of its components; \<^verbatim>\<open>os.path.join\<close> adds one component and
  \<^verbatim>\<open>os.path.basename\<close> reads the last one. Names returned by
  \<^verbatim>\<open>os.listdir\<close> hold no separator, so nothing is lost. The run works on the direct
  children of the source folder: \<open>folder\<close> is that list of named nodes in listing
  order, and a path below the source folder is resolved by its last component.

  A node has a kind (what \<^verbatim>\<open>os.path.isfile\<close> looks at), the result of
  \<^verbatim>\<open>os.stat\<close> (\<open>None\<close> when the call raises: the file vanished or access is
  denied), a flag telling that \<^verbatim>\<open>shutil.move\<close> of this node raises (permission,
  other device, refused overwrite, file gone), and, for a directory, its members.
  The times of \<^verbatim>\<open>os.stat\<close> are time stamps, counted in microseconds since the
  epoch.
\<close>

type_synonym path = "string list"

definition os_path_join :: "path \<Rightarrow> string \<Rightarrow> path" where
  "os_path_join p name = p @ [name]"

definition os_path_basename :: "path \<Rightarrow> string" where
  "os_path_basename p = (case rev p of [] \<Rightarrow> [] | name # _ \<Rightarrow> name)"

text \<open>
  The second component of \<^verbatim>\<open>os.path.splitext\<close>: the text from the last dot of the
  last path component on, where leading dots of that component do not count.
\<close>

definition splitext_ext :: "path \<Rightarrow> string" where
  "splitext_ext p =
     (let stem = dropWhile (\<lambda>c. c = CHR ''.'') (os_path_basename p)
      in if CHR ''.'' \<in> set stem
         then CHR ''.'' # rev (takeWhile (\<lambda>c. c \<noteq> CHR ''.'') (rev stem))
         else [])"

record stat_result =
  st_size :: int
  st_mtime :: int
  st_ctime :: int

datatype node_kind = Regular | Directory | Special

datatype node =
  Node (kind: node_kind) (stat: "stat_result option") (move_fails: bool)
       (members: "(string \<times> node) list")

type_synonym folder = "(string \<times> node) list"

definition os_path_isfile :: "folder \<Rightarrow> path \<Rightarrow> bool" where
  "os_path_isfile d p =
     (case map_of d (os_path_basename p) of None \<Rightarrow> False | Some n \<Rightarrow> kind n = Regular)"

definition os_stat :: "folder \<Rightarrow> path \<Rightarrow> py_error + stat_result" where
  "os_stat d p =
     (case map_of d (os_path_basename p) of
        None \<Rightarrow> Inl OSError
      | Some n \<Rightarrow> (case stat n of None \<Rightarrow> Inl OSError | Some st \<Rightarrow> Inr st))"

definition os_listdir :: "folder \<Rightarrow> string list" where
  "os_listdir d = map fst d"

text \<open>
  What the run cannot decide by itself comes from the \<open>world\<close>: the reading of the
  clock as a time stamp (one reading per run: the program reads it again for every
  check, moments apart), the platform's conversion of a time stamp to local calendar
  time (it raises beyond the range of the platform), the name \<^verbatim>\<open>strftime\<close>
  gives the archive directory, the regular expression engine (\<^verbatim>\<open>re.search\<close>,
  which raises on a malformed pattern), and whether creating a directory or listing the
  source folder is refused.
\<close>

record world =
  now :: int
  localtime :: "int \<Rightarrow> py_error + int"
  stamp :: string
  re_search :: "string \<Rightarrow> string \<Rightarrow> py_error + bool"
  mkdir_fails :: bool
  listdir_fails :: bool

section \<open>Dates and durations\<close>

text \<open>
  A \<^verbatim>\<open>datetime\<close> is a number of microseconds since 0001-01-01 00:00:00, the
  least one; the greatest is 9999-12-31 23:59:59.999999. A \<^verbatim>\<open>timedelta\<close> is a
  number of microseconds. \<^verbatim>\<open>datetime.fromtimestamp\<close> raises what the platform's
  conversion raises and \<^verbatim>\<open>ValueError\<close> when the year leaves the range;
  \<^verbatim>\<open>datetime.now()\<close> converts the reading of the clock;
  \<^verbatim>\<open>timedelta(days=n)\<close> raises \<^verbatim>\<open>OverflowError\<close> when the magnitude of
  \<open>n\<close> exceeds 999999999, and so does a subtraction whose result is no
  \<^verbatim>\<open>datetime\<close>.
\<close>

definition datetime_max :: int where
  "datetime_max = 3652059 * 86400 * 1000000 - 1"

definition datetime_fromtimestamp :: "world \<Rightarrow> int \<Rightarrow> py_error + int" where
  "datetime_fromtimestamp w ts =
     (case localtime w ts of
        Inl e \<Rightarrow> Inl e
      | Inr t \<Rightarrow> if 0 \<le> t \<and> t \<le> datetime_max then Inr t else Inl ValueError)"

definition datetime_now :: "world \<Rightarrow> py_error + int" where
  "datetime_now w = datetime_fromtimestamp w (now w)"

definition timedelta_days :: "int \<Rightarrow> py_error + int" where
  "timedelta_days n =
     (if abs n \<le> 999999999 then Inr (n * 86400 * 1000000) else Inl OverflowError)"

definition datetime_sub :: "int \<Rightarrow> int \<Rightarrow> py_error + int" where
  "datetime_sub t delta =
     (if 0 \<le> t - delta \<and> t - delta \<le> datetime_max then Inr (t - delta)
      else Inl OverflowError)"

text \<open>\<^verbatim>\<open>datetime.now() - timedelta(days=int(n))\<close>, operands left to right.\<close>

definition cutoff_days :: "world \<Rightarrow> int \<Rightarrow> py_error + int" where
  "cutoff_days w n =
     (case datetime_now w of
        Inl e \<Rightarrow> Inl e
      | Inr t \<Rightarrow>
          (case timedelta_days n of
             Inl e \<Rightarrow> Inl e
           | Inr delta \<Rightarrow> datetime_sub t delta))"

text \<open>
  The two conversions that stand between the size checks and the recency checks,
  \<^verbatim>\<open>mod_time\<close> first.
\<close>

definition file_times :: "world \<Rightarrow> stat_result \<Rightarrow> py_error + int \<times> int" where
  "file_times w st =
     (case datetime_fromtimestamp w (st_mtime st) of
        Inl e \<Rightarrow> Inl e
      | Inr mod_time \<Rightarrow>
          (case datetime_fromtimestamp w (st_ctime st) of
             Inl e \<Rightarrow> Inl e
           | Inr create_time \<Rightarrow> Inr (mod_time, create_time)))"

text \<open>
  \<^verbatim>\<open>os.makedirs(archive_path, exist_ok=True)\<close> below the source node: an existing
  directory of that name is reused, another node of that name or a source that is no
  directory raises, otherwise an empty directory is added.
\<close>

definition os_makedirs :: "world \<Rightarrow> node \<Rightarrow> string \<Rightarrow> py_error + folder" where
  "os_makedirs w src name =
     (if kind src \<noteq> Directory then Inl OSError
      else case map_of (members src) name of
             Some n \<Rightarrow> if kind n = Directory then Inr (members src) else Inl OSError
           | None \<Rightarrow>
               if mkdir_fails w then Inl OSError
               else Inr (members src @
                         [(name, Node Directory
                                   (Some \<lparr>st_size = 0, st_mtime = now w, st_ctime = now w\<rparr>)
                                   False [])]))"

text \<open>
  \<^verbatim>\<open>shutil.move(filepath, os.path.join(archive_path, filename))\<close>: the source node
  leaves the folder and becomes a member of the archive directory under the same
  name, replacing a member of that name. The call raises when the source is gone, when
  its node refuses to move, or when the target directory is missing; a listing that
  names the file and the archive directory alike is no directory listing, and the move
  is refused there too.
\<close>

definition put_member :: "string \<Rightarrow> node \<Rightarrow> node \<Rightarrow> node" where
  "put_member name n dir =
     Node (kind dir) (stat dir) (move_fails dir)
          (filter (\<lambda>(k, _). k \<noteq> name) (members dir) @ [(name, n)])"

definition shutil_move :: "folder \<Rightarrow> path \<Rightarrow> path \<Rightarrow> py_error + folder" where
  "shutil_move d src dst =
     (let name = os_path_basename src; dirname = os_path_basename (butlast dst) in
      case map_of d name of
        None \<Rightarrow> Inl OSError
      | Some n \<Rightarrow>
          if move_fails n then Inl OSError
          else (case map_of d dirname of
                  None \<Rightarrow> Inl OSError
                | Some dir \<Rightarrow>
                    if kind dir \<noteq> Directory \<or> dirname = name then Inl OSError
                    else Inr (map (\<lambda>(k, m). (k, if k = dirname
                                                   then put_member (os_path_basename dst) n m
                                                   else m))
                                  (filter (\<lambda>(k, _). k \<noteq> name) d))))"

section \<open>Audit events\<close>

text \<open>
  \<^verbatim>\<open>AuditLogger.log(action, target, status, start_time, message)\<close> appends one
  record to the audit trail. The elapsed time is left out; a message is kept as the
  template that produced it together with the values put in.
\<close>

datatype action = FOLDER_START | FOLDER_ERROR | FOLDER_CREATE | FILTER_CHECK | FILE_MOVE
  | FOLDER_COMPLETE

datatype status = STARTED | FAILED | SUCCESS | SKIPPED | ERROR | COMPLETED

datatype message =
    ExtensionNotAllowed string
  | OverSizeLimit string
  | UnderMinSize string
  | ModifiedWithin int
  | CreatedWithin int
  | RegexMismatch string
  | ExcludeMatched string
  | FilterCheckFailed py_error
  | FolderStarted
  | FolderMissing
  | ArchiveDirCreated
  | ArchiveDirFailed py_error
  | ArchivedTo path
  | ArchiveFailed py_error
  | Summary int int int

record audit_event =
  action :: action
  target :: path
  status :: status
  message :: message

definition audit_log :: "action \<Rightarrow> path \<Rightarrow> status \<Rightarrow> message \<Rightarrow> audit_event" where
  "audit_log a t s m = \<lparr>action = a, target = t, status = s, message = m\<rparr>"

section \<open>FilterEngine: \<^verbatim>\<open>should_archive\<close>\<close>

text \<open>
  The filters are a dictionary; a key that is absent is \<open>None\<close>. The two sizes are
  kept as the strings the configuration holds: they are parsed when a file is checked.
\<close>

record filter_set =
  extensions :: "string list option"
  size_limit :: "string option"
  min_size :: "string option"
  modified_days :: "int option"
  created_days :: "int option"
  regex :: "string option"
  exclude :: "string list option"

text \<open>
  The body of the \<^verbatim>\<open>try\<close> block is a sequence of checks, each of which either
  logs a SKIPPED event and returns \<^verbatim>\<open>False\<close>, raises, or falls through to the
  next one. \<open>from_X\<close> is the body from check \<open>X\<close> on (\<open>from_times\<close> from the
  conversion of the two times on); the definitions come last check first. The result
  is the returned flag with the events logged.
\<close>

definition skip :: "path \<Rightarrow> message \<Rightarrow> py_error + bool \<times> audit_event list" where
  "skip filepath m = Inr (False, [audit_log FILTER_CHECK filepath SKIPPED m])"

fun exclude_loop :: "path \<Rightarrow> string \<Rightarrow> string list \<Rightarrow> py_error + bool \<times> audit_event list" where
  "exclude_loop filepath filename [] = Inr (True, [])"
| "exclude_loop filepath filename (pattern # rest) =
     (if str_contains pattern filename then skip filepath (ExcludeMatched pattern)
      else exclude_loop filepath filename rest)"

definition from_exclude ::
  "path \<Rightarrow> filter_set \<Rightarrow> py_error + bool \<times> audit_event list" where
  "from_exclude filepath flt =
     (case exclude flt of
        None \<Rightarrow> Inr (True, [])
      | Some patterns \<Rightarrow> exclude_loop filepath (os_path_basename filepath) patterns)"

definition from_regex ::
  "world \<Rightarrow> path \<Rightarrow> filter_set \<Rightarrow> py_error + bool \<times> audit_event list" where
  "from_regex w filepath flt =
     (case regex flt of
        None \<Rightarrow> from_exclude filepath flt
      | Some r \<Rightarrow>
          (case re_search w r (os_path_basename filepath) of
             Inl e \<Rightarrow> Inl e
           | Inr found \<Rightarrow>
               if \<not> found then skip filepath (RegexMismatch r)
               else from_exclude filepath flt))"

definition from_created_days ::
  "world \<Rightarrow> int \<Rightarrow> path \<Rightarrow> filter_set \<Rightarrow> py_error + bool \<times> audit_event list" where
  "from_created_days w create_time filepath flt =
     (case created_days flt of
        None \<Rightarrow> from_regex w filepath flt
      | Some n \<Rightarrow>
          (case cutoff_days w n of
             Inl e \<Rightarrow> Inl e
           | Inr cutoff \<Rightarrow>
               if create_time > cutoff then skip filepath (CreatedWithin n)
               else from_regex w filepath flt))"

definition from_modified_days ::
  "world \<Rightarrow> int \<Rightarrow> int \<Rightarrow> path \<Rightarrow> filter_set \<Rightarrow> py_error + bool \<times> audit_event list" where
  "from_modified_days w mod_time create_time filepath flt =
     (case modified_days flt of
        None \<Rightarrow> from_created_days w create_time filepath flt
      | Some n \<Rightarrow>
          (case cutoff_days w n of
             Inl e \<Rightarrow> Inl e
           | Inr cutoff \<Rightarrow>
               if mod_time > cutoff then skip filepath (ModifiedWithin n)
               else from_created_days w create_time filepath flt))"

definition from_times ::
  "world \<Rightarrow> stat_result \<Rightarrow> path \<Rightarrow> filter_set \<Rightarrow> py_error + bool \<times> audit_event list" where
  "from_times w st filepath flt =
     (case file_times w st of
        Inl e \<Rightarrow> Inl e
      | Inr (mod_time, create_time) \<Rightarrow> from_modified_days w mod_time create_time filepath flt)"

definition from_min_size ::
  "world \<Rightarrow> stat_result \<Rightarrow> path \<Rightarrow> filter_set \<Rightarrow> py_error + bool \<times> audit_event list" where
  "from_min_size w st filepath flt =
     (case min_size flt of
        None \<Rightarrow> from_times w st filepath flt
      | Some lim \<Rightarrow>
          (case parse_size lim of
             Inl e \<Rightarrow> Inl e
           | Inr bytes \<Rightarrow>
               if st_size st < bytes then skip filepath (UnderMinSize lim)
               else from_times w st filepath flt))"

definition from_size_limit ::
  "world \<Rightarrow> stat_result \<Rightarrow> path \<Rightarrow> filter_set \<Rightarrow> py_error + bool \<times> audit_event list" where
  "from_size_limit w st filepath flt =
     (case size_limit flt of
        None \<Rightarrow> from_min_size w st filepath flt
      | Some lim \<Rightarrow>
          (case parse_size lim of
             Inl e \<Rightarrow> Inl e
           | Inr bytes \<Rightarrow>
               if st_size st > bytes then skip filepath (OverSizeLimit lim)
               else from_min_size w st filepath flt))"

definition from_extensions ::
  "world \<Rightarrow> stat_result \<Rightarrow> path \<Rightarrow> filter_set \<Rightarrow> py_error + bool \<times> audit_event list" where
  "from_extensions w st filepath flt =
     (case extensions flt of
        None \<Rightarrow> from_size_limit w st filepath flt
      | Some exts \<Rightarrow>
          (let file_ext = str_lower (splitext_ext filepath);
               allowed_ext = map str_lower exts in
           if file_ext = [] \<or> file_ext \<notin> set allowed_ext
           then skip filepath (ExtensionNotAllowed file_ext)
           else from_size_limit w st filepath flt))"

definition should_archive_try ::
  "world \<Rightarrow> folder \<Rightarrow> path \<Rightarrow> filter_set \<Rightarrow> py_error + bool \<times> audit_event list" where
  "should_archive_try w d filepath flt =
     (case os_stat d filepath of
        Inl e \<Rightarrow> Inl e
      | Inr st \<Rightarrow> from_extensions w st filepath flt)"

text \<open>
  \<^verbatim>\<open>except Exception\<close>: whatever the body raises becomes one ERROR event and the
  answer \<^verbatim>\<open>False\<close>.
\<close>

definition should_archive ::
  "world \<Rightarrow> folder \<Rightarrow> path \<Rightarrow> filter_set \<Rightarrow> bool \<times> audit_event list" where
  "should_archive w d filepath flt =
     (case should_archive_try w d filepath flt of
        Inl e \<Rightarrow> (False, [audit_log FILTER_CHECK filepath ERROR (FilterCheckFailed e)])
      | Inr r \<Rightarrow> r)"

text \<open>
  The spec's reading of the filter engine: seven constraints in a fixed order, each of
  which, on a file whose metadata was read, passes (also when it is absent from the
  filters), is violated with a reason, or cannot be evaluated. The first constraint in
  that order that does not pass decides; the ones after it are not looked at. The two
  times of the file are converted where the modified-recency check stands, so that
  this check and the next cannot be evaluated on a file whose times do not convert.
\<close>

datatype constraint = Extension | MaxSize | MinSize | ModifiedRecency | CreatedRecency
  | NamePattern | ExcludeSubstrings

definition evaluation_order :: "constraint list" where
  "evaluation_order =
     [Extension, MaxSize, MinSize, ModifiedRecency, CreatedRecency, NamePattern,
      ExcludeSubstrings]"

datatype verdict = Passes | Violated message | Raises py_error

fun check :: "world \<Rightarrow> stat_result \<Rightarrow> path \<Rightarrow> filter_set \<Rightarrow> constraint \<Rightarrow> verdict" where
  "check w st p flt Extension =
     (case extensions flt of
        None \<Rightarrow> Passes
      | Some exts \<Rightarrow>
          if str_lower (splitext_ext p) \<noteq> [] \<and>
             str_lower (splitext_ext p) \<in> set (map str_lower exts)
          then Passes else Violated (ExtensionNotAllowed (str_lower (splitext_ext p))))"
| "check w st p flt MaxSize =
     (case size_limit flt of
        None \<Rightarrow> Passes
      | Some lim \<Rightarrow>
          (case parse_size lim of
             Inl e \<Rightarrow> Raises e
           | Inr bytes \<Rightarrow> if st_size st > bytes then Violated (OverSizeLimit lim) else Passes))"
| "check w st p flt MinSize =
     (case min_size flt of
        None \<Rightarrow> Passes
      | Some lim \<Rightarrow>
          (case parse_size lim of
             Inl e \<Rightarrow> Raises e
           | Inr bytes \<Rightarrow> if st_size st < bytes then Violated (UnderMinSize lim) else Passes))"
| "check w st p flt ModifiedRecency =
     (case file_times w st of
        Inl e \<Rightarrow> Raises e
      | Inr (mod_time, create_time) \<Rightarrow>
          (case modified_days flt of
             None \<Rightarrow> Passes
           | Some n \<Rightarrow>
               (case cutoff_days w n of
                  Inl e \<Rightarrow> Raises e
                | Inr cutoff \<Rightarrow>
                    if cutoff < mod_time then Violated (ModifiedWithin n) else Passes)))"
| "check w st p flt CreatedRecency =
     (case file_times w st of
        Inl e \<Rightarrow> Raises e
      | Inr (mod_time, create_time) \<Rightarrow>
          (case created_days flt of
             None \<Rightarrow> Passes
           | Some n \<Rightarrow>
               (case cutoff_days w n of
                  Inl e \<Rightarrow> Raises e
                | Inr cutoff \<Rightarrow>
                    if cutoff < create_time then Violated (CreatedWithin n) else Passes)))"
| "check w st p flt NamePattern =
     (case regex flt of
        None \<Rightarrow> Passes
      | Some r \<Rightarrow>
          (case re_search w r (os_path_basename p) of
             Inl e \<Rightarrow> Raises e
           | Inr found \<Rightarrow> if found then Passes else Violated (RegexMismatch r)))"
| "check w st p flt ExcludeSubstrings =
     (case exclude flt of
        None \<Rightarrow> Passes
      | Some patterns \<Rightarrow>
          (case find (\<lambda>pat. str_contains pat (os_path_basename p)) patterns of
             None \<Rightarrow> Passes
           | Some pat \<Rightarrow> Violated (ExcludeMatched pat)))"

text \<open>Whether the filters hold a constraint.\<close>

fun present :: "filter_set \<Rightarrow> constraint \<Rightarrow> bool" where
  "present flt Extension = (extensions flt \<noteq> None)"
| "present flt MaxSize = (size_limit flt \<noteq> None)"
| "present flt MinSize = (min_size flt \<noteq> None)"
| "present flt ModifiedRecency = (modified_days flt \<noteq> None)"
| "present flt CreatedRecency = (created_days flt \<noteq> None)"
| "present flt NamePattern = (regex flt \<noteq> None)"
| "present flt ExcludeSubstrings = (exclude flt \<noteq> None)"

fun first_failure :: "(constraint \<Rightarrow> verdict) \<Rightarrow> constraint list \<Rightarrow> verdict" where
  "first_failure chk [] = Passes"
| "first_failure chk (c # cs) =
     (case chk c of Passes \<Rightarrow> first_failure chk cs | v \<Rightarrow> v)"

definition decision :: "path \<Rightarrow> verdict \<Rightarrow> bool \<times> audit_event list" where
  "decision p v =
     (case v of
        Passes \<Rightarrow> (True, [])
      | Violated m \<Rightarrow> (False, [audit_log FILTER_CHECK p SKIPPED m])
      | Raises e \<Rightarrow> (False, [audit_log FILTER_CHECK p ERROR (FilterCheckFailed e)]))"

definition evaluate_in_order ::
  "world \<Rightarrow> folder \<Rightarrow> path \<Rightarrow> filter_set \<Rightarrow> bool \<times> audit_event list" where
  "evaluate_in_order w d p flt =
     (case os_stat d p of
        Inl e \<Rightarrow> decision p (Raises e)
      | Inr st \<Rightarrow> decision p (first_failure (check w st p flt) evaluation_order))"

section \<open>ArchiveOrchestrator: \<^verbatim>\<open>archive_folder\<close>\<close>

text \<open>
  The application logger receives lines of three levels; as for the audit trail a line
  is kept as its template and values.
\<close>

datatype log_msg =
    FolderNotFound path
  | CreateDirFailed py_error
  | WouldArchive string
  | Archived string
  | FileFailed string py_error
  | Finished path int int int

datatype log_line = LogError log_msg | LogInfo log_msg | LogDebug log_msg

record config =
  dry_run :: bool
  filters :: filter_set

text \<open>
  The state of a run: the children of the source folder, the three counters, and what
  was written to the audit trail and to the application log so far.
\<close>

record run =
  children :: folder
  processed :: int
  skipped :: int
  failed :: int
  audit :: "audit_event list"
  logged :: "log_line list"

text \<open>One turn of the \<^verbatim>\<open>for filename in os.listdir(source_path)\<close> loop.\<close>

definition process_file :: "world \<Rightarrow> config \<Rightarrow> path \<Rightarrow> path \<Rightarrow> string \<Rightarrow> run \<Rightarrow> run" where
  "process_file w cfg source_path archive_path filename r =
     (let filepath = os_path_join source_path filename in
      if os_path_isfile (children r) filepath then
        if dry_run cfg then
          r\<lparr>logged := logged r @ [LogInfo (WouldArchive filename)],
            processed := processed r + 1\<rparr>
        else
          (case should_archive w (children r) filepath (filters cfg) of
             (True, evs) \<Rightarrow>
               (case shutil_move (children r) filepath (os_path_join archive_path filename) of
                  Inr d \<Rightarrow>
                    r\<lparr>children := d,
                      processed := processed r + 1,
                      logged := logged r @ [LogDebug (Archived filename)],
                      audit := audit r @ evs @
                        [audit_log FILE_MOVE filepath SUCCESS (ArchivedTo archive_path)]\<rparr>
                | Inl e \<Rightarrow>
                    r\<lparr>failed := failed r + 1,
                      logged := logged r @ [LogError (FileFailed filename e)],
                      audit := audit r @ evs @
                        [audit_log FILE_MOVE filepath FAILED (ArchiveFailed e)]\<rparr>)
           | (False, evs) \<Rightarrow>
               r\<lparr>skipped := skipped r + 1, audit := audit r @ evs\<rparr>)
      else r)"

fun process_files :: "world \<Rightarrow> config \<Rightarrow> path \<Rightarrow> path \<Rightarrow> string list \<Rightarrow> run \<Rightarrow> run" where
  "process_files w cfg source_path archive_path [] r = r"
| "process_files w cfg source_path archive_path (filename # rest) r =
     process_files w cfg source_path archive_path rest
       (process_file w cfg source_path archive_path filename r)"

text \<open>
  \<^verbatim>\<open>archive_folder\<close> itself. \<open>src\<close> is what the file system holds at
  \<open>source_path\<close>, \<open>None\<close> when nothing is there. The function returns its flag with
  the final state of the run; the one exception it lets through is that of
  \<^verbatim>\<open>os.listdir\<close>, which stands outside every \<^verbatim>\<open>try\<close>.
\<close>

definition archive_folder ::
  "world \<Rightarrow> config \<Rightarrow> path \<Rightarrow> node option \<Rightarrow> py_error + bool \<times> run" where
  "archive_folder w cfg source_path src =
     (let r0 = \<lparr>children = (case src of None \<Rightarrow> [] | Some n \<Rightarrow> members n),
                 processed = 0, skipped = 0, failed = 0,
                 audit = [audit_log FOLDER_START source_path STARTED FolderStarted],
                 logged = []\<rparr>
      in case src of
           None \<Rightarrow>
             Inr (False,
                  r0\<lparr>logged := logged r0 @ [LogError (FolderNotFound source_path)],
                     audit := audit r0 @
                       [audit_log FOLDER_ERROR source_path FAILED FolderMissing]\<rparr>)
         | Some n \<Rightarrow>
             (let archive_path = os_path_join source_path (stamp w) in
              case os_makedirs w n (stamp w) of
                Inl e \<Rightarrow>
                  Inr (False,
                       r0\<lparr>logged := logged r0 @ [LogError (CreateDirFailed e)],
                          audit := audit r0 @
                            [audit_log FOLDER_CREATE archive_path FAILED (ArchiveDirFailed e)]\<rparr>)
              | Inr d \<Rightarrow>
                  (let r1 = r0\<lparr>children := d,
                                audit := audit r0 @
                                  [audit_log FOLDER_CREATE archive_path SUCCESS ArchiveDirCreated]\<rparr>
                   in if listdir_fails w then Inl OSError
                      else
                        (let r = process_files w cfg source_path archive_path
                                   (os_listdir (children r1)) r1
                         in Inr (processed r > 0 \<or> failed r = 0,
                                 r\<lparr>logged := logged r @
                                      [LogInfo (Finished source_path (processed r) (skipped r)
                                                  (failed r))],
                                    audit := audit r @
                                      [audit_log FOLDER_COMPLETE source_path COMPLETED
                                         (Summary (processed r) (skipped r) (failed r))]\<rparr>)))))"

text \<open>
  A run is completed when it reached the end of the function: its last audit event is
  the FOLDER_COMPLETE one. The regular files of a folder are the names
  \<^verbatim>\<open>os.path.isfile\<close> accepts.
\<close>

definition completed :: "run \<Rightarrow> bool" where
  "completed r = (audit r \<noteq> [] \<and> action (last (audit r)) = FOLDER_COMPLETE)"

definition regular_files :: "folder \<Rightarrow> path \<Rightarrow> string list" where
  "regular_files d source_path =
     filter (\<lambda>name. os_path_isfile d (os_path_join source_path name)) (os_listdir d)"

text \<open>A stand-in for the regular expression engine on patterns without operators.\<close>

definition literal_search :: "string \<Rightarrow> string \<Rightarrow> py_error + bool" where
  "literal_search pat s = Inr (str_contains pat s)"

text \<open>A verdict read as the outcome of the \<^verbatim>\<open>try\<close> body.\<close>

definition verdict_result :: "path \<Rightarrow> verdict \<Rightarrow> py_error + bool \<times> audit_event list" where
  "verdict_result p v =
     (case v of Passes \<Rightarrow> Inr (True, []) | Violated m \<Rightarrow> skip p m | Raises e \<Rightarrow> Inl e)"

text \<open>Concrete inputs used to run the model.\<close>

text \<open>
  Local time that is universal time on a platform without a range of its own: the epoch
  is day 719162 after 0001-01-01.
\<close>

definition utc_date :: "int \<Rightarrow> int" where
  "utc_date ts = 719162 * 86400 * 1000000 + ts"

definition utc_localtime :: "int \<Rightarrow> py_error + int" where
  "utc_localtime ts = Inr (utc_date ts)"

definition days :: "int \<Rightarrow> int" where
  "days n = n * 86400 * 1000000"

definition w0 :: world where
  "w0 = \<lparr>now = 1793707200 * 1000000, localtime = utc_localtime,
          stamp = ''2026-11-03_12-00-00'', re_search = literal_search,
          mkdir_fails = False, listdir_fails = False\<rparr>"

definition no_filters :: filter_set where
  "no_filters = \<lparr>extensions = None, size_limit = None, min_size = None,
                  modified_days = None, created_days = None, regex = None, exclude = None\<rparr>"

definition plain_file :: "int \<Rightarrow> int \<Rightarrow> node" where
  "plain_file bytes days_old =
     Node Regular
       (Some \<lparr>st_size = bytes, st_mtime = now w0 - days days_old,
              st_ctime = now w0 - days days_old\<rparr>)
       False []"

definition subdir :: node where
  "subdir = Node Directory (Some \<lparr>st_size = 4096, st_mtime = 0, st_ctime = 0\<rparr>) False []"

definition five_files :: folder where
  "five_files =
     [(''a.txt'', plain_file 100 30), (''b.TXT'', plain_file 200 30),
      (''notes.csv'', plain_file 300 30), (''old'', subdir),
      (''c.txt'', plain_file 400 30), (''README'', plain_file 500 30)]"

definition stat_of :: "int \<Rightarrow> int \<Rightarrow> stat_result" where
  "stat_of bytes days_old =
     \<lparr>st_size = bytes, st_mtime = now w0 - days days_old,
      st_ctime = now w0 - days days_old\<rparr>"

definition txt_filters :: filter_set where
  "txt_filters = no_filters\<lparr>extensions := Some [''.txt'']\<rparr>"

definition strict_filters :: filter_set where
  "strict_filters =
     no_filters\<lparr>extensions := Some [''.txt''], size_limit := Some ''1kb'',
                 min_size := Some ''300'', exclude := Some [''x'', ''b'']\<rparr>"



text \<open>One hour in microseconds, and a file last touched a given time ago.\<close>

definition hour :: int where
  "hour = 3600 * 1000000"

definition touched :: "int \<Rightarrow> stat_result" where
  "touched ago = \<lparr>st_size = 100, st_mtime = now w0 - ago, st_ctime = now w0 - ago\<rparr>"

definition recent_and_old :: folder where
  "recent_and_old =
     [(''fresh.log'', Node Regular (Some (touched hour)) False []),
      (''stale.log'', Node Regular (Some (touched (days 10))) False [])]"

definition bad_limit_filters :: filter_set where
  "bad_limit_filters = no_filters\<lparr>size_limit := Some ''10XB''\<rparr>"

definition bad_min_filters :: filter_set where
  "bad_min_filters = no_filters\<lparr>min_size := Some ''ten''\<rparr>"

text \<open>The flag and the three counters of a finished call.\<close>

definition tally :: "py_error + bool \<times> run \<Rightarrow> py_error + bool \<times> int \<times> int \<times> int" where
  "tally res = map_sum id (\<lambda>(ok, r). (ok, processed r, skipped r, failed r)) res"

definition data_folder :: "node option" where
  "data_folder = Some (Node Directory None False five_files)"

text \<open>A folder whose only file can no longer be read (it is listed, its metadata is not).\<close>

definition ghost_folder :: folder where
  "ghost_folder = [(''gone.txt'', Node Regular None False [])]"

definition fresh_run :: "folder \<Rightarrow> run" where
  "fresh_run d =
     \<lparr>children = d, processed = 0, skipped = 0, failed = 0, audit = [], logged = []\<rparr>"

text \<open>The number of files a run has accounted for so far.\<close>

definition handled :: "run \<Rightarrow> int" where
  "handled r = processed r + skipped r + failed r"

text \<open>
  One turn of the loop counts a file when exactly one of the three counters went up by
  one and the other two stayed as they were.
\<close>

definition counts_one :: "run \<Rightarrow> run \<Rightarrow> bool" where
  "counts_one r r' =
     ((processed r' = processed r + 1 \<and> skipped r' = skipped r \<and> failed r' = failed r) \<or>
      (processed r' = processed r \<and> skipped r' = skipped r + 1 \<and> failed r' = failed r) \<or>
      (processed r' = processed r \<and> skipped r' = skipped r \<and> failed r' = failed r + 1))"

text \<open>The state in which the loop starts, once the archive directory is there.\<close>

definition opened :: "path \<Rightarrow> world \<Rightarrow> folder \<Rightarrow> run" where
  "opened source_path w d =
     \<lparr>children = d, processed = 0, skipped = 0, failed = 0,
      audit = [audit_log FOLDER_START source_path STARTED FolderStarted,
               audit_log FOLDER_CREATE (os_path_join source_path (stamp w)) SUCCESS
                 ArchiveDirCreated],
      logged = []\<rparr>"

text \<open>What the end of the function adds to the state the loop leaves.\<close>

definition closed :: "path \<Rightarrow> run \<Rightarrow> run" where
  "closed source_path r =
     r\<lparr>logged := logged r @
         [LogInfo (Finished source_path (processed r) (skipped r) (failed r))],
       audit := audit r @
         [audit_log FOLDER_COMPLETE source_path COMPLETED
            (Summary (processed r) (skipped r) (failed r))]\<rparr>"

definition pdf_filters :: filter_set where
  "pdf_filters = no_filters\<lparr>extensions := Some [''.pdf'']\<rparr>"

text \<open>A folder whose first file cannot be moved, and one that holds nothing else.\<close>

definition locked_file :: node where
  "locked_file = Node Regular (Some (stat_of 1 30)) True []"

definition sticky_folder :: folder where
  "sticky_folder =
     [(''locked.txt'', locked_file), (''c.txt'', plain_file 400 30),
      (''d.txt'', plain_file 500 30)]"

definition locked_only :: folder where
  "locked_only = [(''locked.txt'', locked_file)]"

definition dir_of :: "folder \<Rightarrow> node" where
  "dir_of d = Node Directory None False d"

definition real_run :: "filter_set \<Rightarrow> config" where
  "real_run flt = \<lparr>dry_run = False, filters = flt\<rparr>"

definition rehearsal :: "filter_set \<Rightarrow> config" where
  "rehearsal flt = \<lparr>dry_run = True, filters = flt\<rparr>"

text \<open>Whether a call returned from the end of the function.\<close>

definition returned_completed :: "py_error + bool \<times> run \<Rightarrow> bool" where
  "returned_completed res = (case res of Inl _ \<Rightarrow> False | Inr (_, r) \<Rightarrow> completed r)"


definition far_future_created_filters :: filter_set where
  "far_future_created_filters = no_filters\<lparr>created_days := Some (- 3000000)\<rparr>"

definition misdated :: stat_result where
  "misdated = \<lparr>st_size = 100, st_mtime = days 4000000, st_ctime = now w0 - days 10\<rparr>"

definition misdated_folder :: folder where
  "misdated_folder = [(''odd.log'', Node Regular (Some misdated) False [])]"

section \<open>Properties of the size parser\<close>






lemma py_int_error: "py_int t = Inl e \<Longrightarrow> e = ValueError"
  by (auto simp: py_int_def Let_def split: option.splits)

lemma parse_size_error: "parse_size s = Inl e \<Longrightarrow> e = ValueError"
  by (auto simp: parse_size_def Let_def map_sum_def dest: py_int_error
      split: if_splits sum.splits)




section \<open>Properties of the filter engine\<close>

lemma exclude_loop_find:
  "exclude_loop p name pats =
     (case find (\<lambda>pat. str_contains pat name) pats of
        None \<Rightarrow> Inr (True, [])
      | Some pat \<Rightarrow> skip p (ExcludeMatched pat))"
  by (induction pats) auto

lemma from_exclude_order:
  "from_exclude p flt = verdict_result p (first_failure (check w st p flt) [ExcludeSubstrings])"
  by (simp add: from_exclude_def exclude_loop_find verdict_result_def
      split: option.splits)

lemma from_regex_order:
  "from_regex w p flt =
     verdict_result p (first_failure (check w st p flt) [NamePattern, ExcludeSubstrings])"
  unfolding from_regex_def from_exclude_order [of p flt w st]
  by (simp add: verdict_result_def split: option.splits sum.splits)

lemma from_created_days_order:
  "file_times w st = Inr (mt, ct) \<Longrightarrow>
   from_created_days w ct p flt =
     verdict_result p
       (first_failure (check w st p flt) [CreatedRecency, NamePattern, ExcludeSubstrings])"
  unfolding from_created_days_def from_regex_order [of w p flt st]
  by (simp add: verdict_result_def split: option.splits sum.splits)

lemma from_modified_days_order:
  "file_times w st = Inr (mt, ct) \<Longrightarrow>
   from_modified_days w mt ct p flt =
     verdict_result p
       (first_failure (check w st p flt)
          [ModifiedRecency, CreatedRecency, NamePattern, ExcludeSubstrings])"
  unfolding from_modified_days_def
  by (simp add: from_created_days_order [of w st mt ct] verdict_result_def
      split: option.splits sum.splits)

lemma from_times_order:
  "from_times w st p flt =
     verdict_result p
       (first_failure (check w st p flt)
          [ModifiedRecency, CreatedRecency, NamePattern, ExcludeSubstrings])"
proof (cases "file_times w st")
  case (Inl e)
  then show ?thesis by (simp add: from_times_def verdict_result_def)
next
  case (Inr ts)
  obtain mt ct where ts: "ts = (mt, ct)" by (cases ts)
  from Inr [unfolded ts] show ?thesis
    by (simp add: from_times_def from_modified_days_order [of w st mt ct])
qed

lemma from_min_size_order:
  "from_min_size w st p flt =
     verdict_result p
       (first_failure (check w st p flt)
          [MinSize, ModifiedRecency, CreatedRecency, NamePattern, ExcludeSubstrings])"
  unfolding from_min_size_def from_times_order
  by (simp add: verdict_result_def split: option.splits sum.splits)

lemma from_size_limit_order:
  "from_size_limit w st p flt =
     verdict_result p
       (first_failure (check w st p flt)
          [MaxSize, MinSize, ModifiedRecency, CreatedRecency, NamePattern, ExcludeSubstrings])"
  unfolding from_size_limit_def from_min_size_order
  by (simp add: verdict_result_def split: option.splits sum.splits)

lemma from_extensions_order:
  "from_extensions w st p flt =
     verdict_result p (first_failure (check w st p flt) evaluation_order)"
  unfolding from_extensions_def from_size_limit_order evaluation_order_def
  by (simp add: verdict_result_def Let_def split: option.splits)

lemma should_archive_stat:
  "os_stat d p = Inr st \<Longrightarrow>
   should_archive w d p flt = decision p (first_failure (check w st p flt) evaluation_order)"
  by (simp add: should_archive_def should_archive_try_def from_extensions_order
      verdict_result_def decision_def skip_def split: verdict.splits)

lemma should_archive_no_stat:
  "os_stat d p = Inl e \<Longrightarrow>
   should_archive w d p flt = (False, [audit_log FILTER_CHECK p ERROR (FilterCheckFailed e)])"
  by (simp add: should_archive_def should_archive_try_def)

lemma should_archive_in_order: "should_archive w d p flt = evaluate_in_order w d p flt"
  by (cases "os_stat d p")
     (simp_all add: should_archive_stat should_archive_no_stat evaluate_in_order_def
        decision_def)

lemma first_failure_split:
  "\<forall>b \<in> set before. chk b = Passes \<Longrightarrow>
   first_failure chk (before @ c # after) =
     (case chk c of Passes \<Rightarrow> first_failure chk after | v \<Rightarrow> v)"
  by (induction before) auto

lemma first_failure_all_pass:
  "\<forall>c \<in> set cs. chk c = Passes \<Longrightarrow> first_failure chk cs = Passes"
  by (induction cs) auto

lemma first_failure_at:
  assumes "evaluation_order = before @ c # after"
    and "\<forall>b \<in> set before. chk b = Passes" and "chk c \<noteq> Passes"
  shows "first_failure chk evaluation_order = chk c"
  using first_failure_split [OF assms(2), of c after] assms(1,3)
  by (cases "chk c") simp_all

lemma should_archive_violated:
  assumes "os_stat d p = Inr st" and "evaluation_order = before @ c # after"
    and "\<forall>b \<in> set before. check w st p flt b = Passes"
    and "check w st p flt c = Violated m"
  shows "should_archive w d p flt = (False, [audit_log FILTER_CHECK p SKIPPED m])"
  using first_failure_at [OF assms(2,3)] assms(1,4)
  by (simp add: should_archive_stat decision_def)

lemma should_archive_raises:
  assumes "os_stat d p = Inr st" and "evaluation_order = before @ c # after"
    and "\<forall>b \<in> set before. check w st p flt b = Passes"
    and "check w st p flt c = Raises e"
  shows "should_archive w d p flt =
           (False, [audit_log FILTER_CHECK p ERROR (FilterCheckFailed e)])"
  using first_failure_at [OF assms(2,3)] assms(1,4)
  by (simp add: should_archive_stat decision_def)

lemma should_archive_admits:
  assumes "os_stat d p = Inr st" and "\<forall>c \<in> set evaluation_order. check w st p flt c = Passes"
  shows "should_archive w d p flt = (True, [])"
  using assms by (simp add: should_archive_stat first_failure_all_pass decision_def)

lemma check_absent:
  "\<not> present flt c \<Longrightarrow> file_times w st = Inr ts \<Longrightarrow> check w st p flt c = Passes"
  by (cases c; cases ts) auto

text \<open>
  Claim C3, as the code has it. On every file and filter set the engine behaves as
  the evaluation of the seven constraints in the order extension, maximum size,
  minimum size, modified-recency, created-recency, name pattern, exclude substrings.
  On a file whose metadata is read: if the constraints before \<open>c\<close> in that order pass
  and \<open>c\<close> is violated, the file is rejected with the reason of \<open>c\<close> alone, whatever the
  constraints after \<open>c\<close> would say (they are skipped, also when evaluating them would
  fail); if \<open>c\<close> cannot be evaluated (a malformed size, a time of the file that does
  not convert, a cutoff that is no date, a malformed pattern), the file is rejected at
  that place with an ERROR event in place of a reason; a file on which all seven pass
  is admitted without a reason; and a constraint that is absent from the filters
  passes on every file whose times convert.
\<close>

theorem should_archive_first_violation:
  "should_archive w d p flt = evaluate_in_order w d p flt \<and>
   (os_stat d p = Inr st \<and> evaluation_order = before @ c # after \<and>
    (\<forall>b \<in> set before. check w st p flt b = Passes) \<and> check w st p flt c = Violated m \<longrightarrow>
      should_archive w d p flt = (False, [audit_log FILTER_CHECK p SKIPPED m])) \<and>
   (os_stat d p = Inr st \<and> (\<forall>c \<in> set evaluation_order. check w st p flt c = Passes) \<longrightarrow>
      should_archive w d p flt = (True, [])) \<and>
   (os_stat d p = Inr st \<and> evaluation_order = before @ c # after \<and>
    (\<forall>b \<in> set before. check w st p flt b = Passes) \<and> check w st p flt c = Raises e \<longrightarrow>
      should_archive w d p flt =
        (False, [audit_log FILTER_CHECK p ERROR (FilterCheckFailed e)])) \<and>
   (file_times w st = Inr ts \<and> \<not> present flt c \<longrightarrow> check w st p flt c = Passes)"
proof (intro conjI impI)
  show "should_archive w d p flt = evaluate_in_order w d p flt"
    by (rule should_archive_in_order)
next
  assume "os_stat d p = Inr st \<and> evaluation_order = before @ c # after \<and>
    (\<forall>b \<in> set before. check w st p flt b = Passes) \<and> check w st p flt c = Violated m"
  then show "should_archive w d p flt = (False, [audit_log FILTER_CHECK p SKIPPED m])"
    using should_archive_violated by blast
next
  assume "os_stat d p = Inr st \<and> (\<forall>c \<in> set evaluation_order. check w st p flt c = Passes)"
  then show "should_archive w d p flt = (True, [])"
    using should_archive_admits by blast
next
  assume "os_stat d p = Inr st \<and> evaluation_order = before @ c # after \<and>
    (\<forall>b \<in> set before. check w st p flt b = Passes) \<and> check w st p flt c = Raises e"
  then show "should_archive w d p flt =
      (False, [audit_log FILTER_CHECK p ERROR (FilterCheckFailed e)])"
    using should_archive_raises by blast
next
  assume "file_times w st = Inr ts \<and> \<not> present flt c"
  then show "check w st p flt c = Passes"
    by (simp add: check_absent)
qed

theorem should_archive_first_violation_witness:
  "os_stat five_files [''/data'', ''b.TXT''] = Inr (stat_of 200 30) \<and>
   evaluation_order =
     [Extension, MaxSize] @ MinSize #
     [ModifiedRecency, CreatedRecency, NamePattern, ExcludeSubstrings] \<and>
   check w0 (stat_of 200 30) [''/data'', ''b.TXT''] strict_filters Extension = Passes \<and>
   check w0 (stat_of 200 30) [''/data'', ''b.TXT''] strict_filters MaxSize = Passes \<and>
   check w0 (stat_of 200 30) [''/data'', ''b.TXT''] strict_filters MinSize =
     Violated (UnderMinSize ''300'') \<and>
   check w0 (stat_of 200 30) [''/data'', ''b.TXT''] strict_filters ExcludeSubstrings =
     Violated (ExcludeMatched ''b'') \<and>
   should_archive w0 five_files [''/data'', ''b.TXT''] strict_filters =
     (False, [audit_log FILTER_CHECK [''/data'', ''b.TXT''] SKIPPED (UnderMinSize ''300'')]) \<and>
   list_all (\<lambda>c. check w0 (stat_of 200 30) [''/data'', ''b.TXT''] txt_filters c = Passes)
     evaluation_order \<and>
   should_archive w0 five_files [''/data'', ''b.TXT''] txt_filters = (True, []) \<and>
   evaluation_order =
     [Extension] @ MaxSize #
     [MinSize, ModifiedRecency, CreatedRecency, NamePattern, ExcludeSubstrings] \<and>
   check w0 (stat_of 200 30) [''/data'', ''b.TXT''] bad_limit_filters Extension = Passes \<and>
   check w0 (stat_of 200 30) [''/data'', ''b.TXT''] bad_limit_filters MaxSize =
     Raises ValueError \<and>
   should_archive w0 five_files [''/data'', ''b.TXT''] bad_limit_filters =
     (False, [audit_log FILTER_CHECK [''/data'', ''b.TXT''] ERROR
                (FilterCheckFailed ValueError)]) \<and>
   file_times w0 (stat_of 200 30) =
     Inr (utc_date (st_mtime (stat_of 200 30)), utc_date (st_ctime (stat_of 200 30))) \<and>
   \<not> present txt_filters ModifiedRecency \<and>
   check w0 (stat_of 200 30) [''/data'', ''b.TXT''] txt_filters ModifiedRecency = Passes"
proof -
  let ?p = "[''/data'', ''b.TXT'']"
  let ?ts = "(utc_date (st_mtime (stat_of 200 30)), utc_date (st_ctime (stat_of 200 30)))"
  note claim = should_archive_first_violation
  have st: "os_stat five_files ?p = Inr (stat_of 200 30)"
    by code_simp
  have ord: "evaluation_order =
     [Extension, MaxSize] @ MinSize #
     [ModifiedRecency, CreatedRecency, NamePattern, ExcludeSubstrings]"
    by (simp add: evaluation_order_def)
  have ord2: "evaluation_order =
     [Extension] @ MaxSize #
     [MinSize, ModifiedRecency, CreatedRecency, NamePattern, ExcludeSubstrings]"
    by (simp add: evaluation_order_def)
  have before: "\<forall>b \<in> set [Extension, MaxSize].
      check w0 (stat_of 200 30) ?p strict_filters b = Passes"
    by code_simp
  have viol: "check w0 (stat_of 200 30) ?p strict_filters MinSize =
     Violated (UnderMinSize ''300'')"
    by code_simp
  have later: "check w0 (stat_of 200 30) ?p strict_filters ExcludeSubstrings =
     Violated (ExcludeMatched ''b'')"
    by code_simp
  have pass: "\<forall>c \<in> set evaluation_order.
      check w0 (stat_of 200 30) ?p txt_filters c = Passes"
    by code_simp
  have before2: "\<forall>b \<in> set [Extension].
      check w0 (stat_of 200 30) ?p bad_limit_filters b = Passes"
    by code_simp
  have raises: "check w0 (stat_of 200 30) ?p bad_limit_filters MaxSize = Raises ValueError"
    by code_simp
  have times: "file_times w0 (stat_of 200 30) = Inr ?ts"
    by code_simp
  have absent: "\<not> present txt_filters ModifiedRecency"
    by code_simp
  have "should_archive w0 five_files ?p strict_filters =
     (False, [audit_log FILTER_CHECK ?p SKIPPED (UnderMinSize ''300'')])"
    using claim
      [where w = w0 and d = five_files and p = ?p and flt = strict_filters
         and st = "stat_of 200 30" and before = "[Extension, MaxSize]" and c = MinSize
         and after = "[ModifiedRecency, CreatedRecency, NamePattern, ExcludeSubstrings]"
         and m = "UnderMinSize ''300''"]
      st ord before viol
    by blast
  moreover have "should_archive w0 five_files ?p txt_filters = (True, [])"
    using claim
      [where w = w0 and d = five_files and p = ?p and flt = txt_filters
         and st = "stat_of 200 30"]
      st pass
    by blast
  moreover have "should_archive w0 five_files ?p bad_limit_filters =
     (False, [audit_log FILTER_CHECK ?p ERROR (FilterCheckFailed ValueError)])"
    using claim
      [where w = w0 and d = five_files and p = ?p and flt = bad_limit_filters
         and st = "stat_of 200 30" and before = "[Extension]" and c = MaxSize
         and after = "[MinSize, ModifiedRecency, CreatedRecency, NamePattern,
                       ExcludeSubstrings]"
         and e = ValueError]
      st ord2 before2 raises
    by blast
  moreover have "check w0 (stat_of 200 30) ?p txt_filters ModifiedRecency = Passes"
    using claim
      [where w = w0 and st = "stat_of 200 30" and ts = ?ts and flt = txt_filters
         and c = ModifiedRecency and p = ?p]
      times absent
    by blast
  ultimately show ?thesis
    using st ord ord2 before before2 viol later pass raises times absent
    by (simp add: list_all_iff)
qed

text \<open>
  Claim C3 as stated fails on its last clause, that a file violating no constraint is
  admitted. The file \<^verbatim>\<open>stale.log\<close> is admitted without filters, and its creation
  time lies before the cutoff of \<open>created_days\<close> = -3000000, some 8200 years ahead;
  but that cutoff is no date, the subtraction raises, and the file is rejected with an
  ERROR event. The file \<^verbatim>\<open>odd.log\<close>, whose modification time was set beyond the
  year 9999, is rejected with an ERROR event by filters that hold no constraint.
\<close>

theorem no_violation_yet_rejected_counterexample:
  "should_archive w0 recent_and_old [''/data'', ''stale.log''] no_filters = (True, []) \<and>
   created_days far_future_created_filters = Some (- 3000000) \<and>
   utc_date (st_ctime (touched (days 10))) < utc_date (now w0) - days (- 3000000) \<and>
   should_archive w0 recent_and_old [''/data'', ''stale.log''] far_future_created_filters =
     (False, [\<lparr>action = FILTER_CHECK, target = [''/data'', ''stale.log''], status = ERROR,
               message = FilterCheckFailed OverflowError\<rparr>]) \<and>
   should_archive w0 misdated_folder [''/data'', ''odd.log''] no_filters =
     (False, [\<lparr>action = FILTER_CHECK, target = [''/data'', ''odd.log''], status = ERROR,
               message = FilterCheckFailed ValueError\<rparr>])"
proof (intro conjI)
  show "should_archive w0 recent_and_old [''/data'', ''stale.log''] no_filters = (True, [])"
    by code_simp
  show "created_days far_future_created_filters = Some (- 3000000)"
    by (simp add: far_future_created_filters_def no_filters_def)
  show "utc_date (st_ctime (touched (days 10))) < utc_date (now w0) - days (- 3000000)"
    by code_simp
  show "should_archive w0 recent_and_old [''/data'', ''stale.log'']
      far_future_created_filters =
     (False, [\<lparr>action = FILTER_CHECK, target = [''/data'', ''stale.log''], status = ERROR,
               message = FilterCheckFailed OverflowError\<rparr>])"
    by code_simp
  show "should_archive w0 misdated_folder [''/data'', ''odd.log''] no_filters =
     (False, [\<lparr>action = FILTER_CHECK, target = [''/data'', ''odd.log''], status = ERROR,
               message = FilterCheckFailed ValueError\<rparr>])"
    by code_simp
qed














lemma should_archive_try_stat:
  "os_stat d p = Inr st \<Longrightarrow>
   should_archive_try w d p flt =
     verdict_result p (first_failure (check w st p flt) evaluation_order)"
  by (simp add: should_archive_try_def from_extensions_order)

lemma order_max_size:
  "evaluation_order =
     [Extension] @ MaxSize #
     [MinSize, ModifiedRecency, CreatedRecency, NamePattern, ExcludeSubstrings]"
  by (simp add: evaluation_order_def)

lemma order_min_size:
  "evaluation_order =
     [Extension, MaxSize] @ MinSize #
     [ModifiedRecency, CreatedRecency, NamePattern, ExcludeSubstrings]"
  by (simp add: evaluation_order_def)

lemma malformed_size_limit:
  assumes "os_stat d p = Inr st" and "check w st p flt Extension = Passes"
    and "size_limit flt = Some lim" and "parse_size lim = Inl e"
  shows "should_archive_try w d p flt = Inl e"
    and "should_archive w d p flt =
           (False, [audit_log FILTER_CHECK p ERROR (FilterCheckFailed e)])"
proof -
  from assms(2) have b: "\<forall>b \<in> set [Extension]. check w st p flt b = Passes" by simp
  from assms(3,4) have r: "check w st p flt MaxSize = Raises e" by simp
  from first_failure_at [OF order_max_size b] r assms(1)
  show "should_archive_try w d p flt = Inl e"
    by (simp add: should_archive_try_stat verdict_result_def)
  from should_archive_raises [OF assms(1) order_max_size b r]
  show "should_archive w d p flt =
      (False, [audit_log FILTER_CHECK p ERROR (FilterCheckFailed e)])" .
qed

lemma malformed_min_size:
  assumes "os_stat d p = Inr st"
    and b: "\<forall>b \<in> set [Extension, MaxSize]. check w st p flt b = Passes"
    and "min_size flt = Some lim" and "parse_size lim = Inl e"
  shows "should_archive_try w d p flt = Inl e"
    and "should_archive w d p flt =
           (False, [audit_log FILTER_CHECK p ERROR (FilterCheckFailed e)])"
proof -
  from assms(3,4) have r: "check w st p flt MinSize = Raises e" by simp
  from first_failure_at [OF order_min_size b] r assms(1)
  show "should_archive_try w d p flt = Inl e"
    by (simp add: should_archive_try_stat verdict_result_def)
  from should_archive_raises [OF assms(1) order_min_size b r]
  show "should_archive w d p flt =
      (False, [audit_log FILTER_CHECK p ERROR (FilterCheckFailed e)])" .
qed

lemma process_file_rejected:
  assumes "os_path_isfile (children r) (os_path_join src name)" and "\<not> dry_run cfg"
    and "should_archive w (children r) (os_path_join src name) (filters cfg) = (False, evs)"
  shows "process_file w cfg src arch name r =
           r\<lparr>skipped := skipped r + 1, audit := audit r @ evs\<rparr>"
  using assms by (simp add: process_file_def Let_def)

lemma process_files_rejected:
  assumes "os_path_isfile (children r) (os_path_join src name)" and "\<not> dry_run cfg"
    and "should_archive w (children r) (os_path_join src name) (filters cfg) = (False, evs)"
  shows "process_files w cfg src arch (name # rest) r =
           process_files w cfg src arch rest
             (r\<lparr>skipped := skipped r + 1, audit := audit r @ evs\<rparr>)"
  using assms by (simp add: process_file_rejected)

text \<open>
  Claim C6, as the code has it. The size parser hands its format error to its caller,
  the body of the filter check; there the error meets \<^verbatim>\<open>except Exception\<close> and
  goes no further. For every file whose metadata can be read and that passes the
  extension check, a malformed \<open>size_limit\<close> makes the check answer \<^verbatim>\<open>False\<close>
  with one ERROR event that carries the error; a malformed \<open>min_size\<close> does the same
  for every file that also passes the maximum size check. In the folder run (outside
  dry-run mode) such a file adds one to \<open>skipped\<close>, its ERROR event joins the audit
  trail, and the loop goes on with the remaining entries.
\<close>

theorem malformed_size_becomes_error_rejection:
  "(parse_size lim = Inl e \<longrightarrow> e = ValueError) \<and>
   (os_stat d p = Inr st \<and> check w st p flt Extension = Passes \<and>
    size_limit flt = Some lim \<and> parse_size lim = Inl e \<longrightarrow>
      should_archive_try w d p flt = Inl e \<and>
      should_archive w d p flt =
        (False, [audit_log FILTER_CHECK p ERROR (FilterCheckFailed e)])) \<and>
   (os_stat d p = Inr st \<and> (\<forall>b \<in> set [Extension, MaxSize]. check w st p flt b = Passes) \<and>
    min_size flt = Some lim \<and> parse_size lim = Inl e \<longrightarrow>
      should_archive_try w d p flt = Inl e \<and>
      should_archive w d p flt =
        (False, [audit_log FILTER_CHECK p ERROR (FilterCheckFailed e)])) \<and>
   (os_path_isfile (children r) (os_path_join src name) \<and> \<not> dry_run cfg \<and>
    os_stat (children r) (os_path_join src name) = Inr st \<and>
    check w st (os_path_join src name) (filters cfg) Extension = Passes \<and>
    size_limit (filters cfg) = Some lim \<and> parse_size lim = Inl e \<longrightarrow>
      process_files w cfg src arch (name # rest) r =
        process_files w cfg src arch rest
          (r\<lparr>skipped := skipped r + 1,
             audit := audit r @
               [audit_log FILTER_CHECK (os_path_join src name) ERROR
                  (FilterCheckFailed e)]\<rparr>)) \<and>
   (os_path_isfile (children r) (os_path_join src name) \<and> \<not> dry_run cfg \<and>
    os_stat (children r) (os_path_join src name) = Inr st \<and>
    (\<forall>b \<in> set [Extension, MaxSize].
       check w st (os_path_join src name) (filters cfg) b = Passes) \<and>
    min_size (filters cfg) = Some lim \<and> parse_size lim = Inl e \<longrightarrow>
      process_files w cfg src arch (name # rest) r =
        process_files w cfg src arch rest
          (r\<lparr>skipped := skipped r + 1,
             audit := audit r @
               [audit_log FILTER_CHECK (os_path_join src name) ERROR
                  (FilterCheckFailed e)]\<rparr>))"
proof (intro conjI impI)
  assume "parse_size lim = Inl e"
  then show "e = ValueError" by (rule parse_size_error)
next
  assume a: "os_stat d p = Inr st \<and> check w st p flt Extension = Passes \<and>
    size_limit flt = Some lim \<and> parse_size lim = Inl e"
  then show "should_archive_try w d p flt = Inl e"
    using malformed_size_limit(1) by blast
  from a show "should_archive w d p flt =
      (False, [audit_log FILTER_CHECK p ERROR (FilterCheckFailed e)])"
    using malformed_size_limit(2) by blast
next
  assume a: "os_stat d p = Inr st \<and>
    (\<forall>b \<in> set [Extension, MaxSize]. check w st p flt b = Passes) \<and>
    min_size flt = Some lim \<and> parse_size lim = Inl e"
  then show "should_archive_try w d p flt = Inl e"
    using malformed_min_size(1) by blast
  from a show "should_archive w d p flt =
      (False, [audit_log FILTER_CHECK p ERROR (FilterCheckFailed e)])"
    using malformed_min_size(2) by blast
next
  let ?p = "os_path_join src name"
  assume a: "os_path_isfile (children r) ?p \<and> \<not> dry_run cfg \<and>
    os_stat (children r) ?p = Inr st \<and>
    check w st ?p (filters cfg) Extension = Passes \<and>
    size_limit (filters cfg) = Some lim \<and> parse_size lim = Inl e"
  then have "should_archive w (children r) ?p (filters cfg) =
      (False, [audit_log FILTER_CHECK ?p ERROR (FilterCheckFailed e)])"
    using malformed_size_limit(2) by blast
  with a show "process_files w cfg src arch (name # rest) r =
        process_files w cfg src arch rest
          (r\<lparr>skipped := skipped r + 1,
             audit := audit r @
               [audit_log FILTER_CHECK ?p ERROR (FilterCheckFailed e)]\<rparr>)"
    using process_files_rejected by blast
next
  let ?p = "os_path_join src name"
  assume a: "os_path_isfile (children r) ?p \<and> \<not> dry_run cfg \<and>
    os_stat (children r) ?p = Inr st \<and>
    (\<forall>b \<in> set [Extension, MaxSize]. check w st ?p (filters cfg) b = Passes) \<and>
    min_size (filters cfg) = Some lim \<and> parse_size lim = Inl e"
  then have "should_archive w (children r) ?p (filters cfg) =
      (False, [audit_log FILTER_CHECK ?p ERROR (FilterCheckFailed e)])"
    using malformed_min_size(2) by blast
  with a show "process_files w cfg src arch (name # rest) r =
        process_files w cfg src arch rest
          (r\<lparr>skipped := skipped r + 1,
             audit := audit r @
               [audit_log FILTER_CHECK ?p ERROR (FilterCheckFailed e)]\<rparr>)"
    using process_files_rejected by blast
qed

theorem malformed_size_becomes_error_rejection_witness:
  "parse_size ''10XB'' = Inl ValueError \<and>
   os_stat five_files [''/data'', ''a.txt''] = Inr (stat_of 100 30) \<and>
   check w0 (stat_of 100 30) [''/data'', ''a.txt''] bad_limit_filters Extension = Passes \<and>
   size_limit bad_limit_filters = Some ''10XB'' \<and>
   should_archive_try w0 five_files [''/data'', ''a.txt''] bad_limit_filters = Inl ValueError \<and>
   should_archive w0 five_files [''/data'', ''a.txt''] bad_limit_filters =
     (False, [audit_log FILTER_CHECK [''/data'', ''a.txt''] ERROR (FilterCheckFailed ValueError)]) \<and>
   parse_size ''ten'' = Inl ValueError \<and>
   check w0 (stat_of 100 30) [''/data'', ''a.txt''] bad_min_filters Extension = Passes \<and>
   check w0 (stat_of 100 30) [''/data'', ''a.txt''] bad_min_filters MaxSize = Passes \<and>
   min_size bad_min_filters = Some ''ten'' \<and>
   should_archive w0 five_files [''/data'', ''a.txt''] bad_min_filters =
     (False, [audit_log FILTER_CHECK [''/data'', ''a.txt''] ERROR (FilterCheckFailed ValueError)]) \<and>
   os_path_isfile (children (fresh_run five_files)) (os_path_join [''/data''] ''a.txt'') \<and>
   \<not> dry_run (real_run bad_limit_filters) \<and>
   \<not> dry_run (real_run bad_min_filters) \<and>
   process_files w0 (real_run bad_limit_filters) [''/data''] [''/data'', ''arch'']
       (''a.txt'' # [''b.TXT'', ''old'']) (fresh_run five_files) =
     process_files w0 (real_run bad_limit_filters) [''/data''] [''/data'', ''arch'']
       [''b.TXT'', ''old'']
       ((fresh_run five_files)
          \<lparr>skipped := skipped (fresh_run five_files) + 1,
            audit := audit (fresh_run five_files) @
              [audit_log FILTER_CHECK (os_path_join [''/data''] ''a.txt'') ERROR
                 (FilterCheckFailed ValueError)]\<rparr>) \<and>
   process_files w0 (real_run bad_min_filters) [''/data''] [''/data'', ''arch'']
       (''a.txt'' # [''b.TXT'', ''old'']) (fresh_run five_files) =
     process_files w0 (real_run bad_min_filters) [''/data''] [''/data'', ''arch'']
       [''b.TXT'', ''old'']
       ((fresh_run five_files)
          \<lparr>skipped := skipped (fresh_run five_files) + 1,
            audit := audit (fresh_run five_files) @
              [audit_log FILTER_CHECK (os_path_join [''/data''] ''a.txt'') ERROR
                 (FilterCheckFailed ValueError)]\<rparr>)"
proof -
  let ?p = "[''/data'', ''a.txt'']" and ?r = "fresh_run five_files"
  let ?j = "os_path_join [''/data''] ''a.txt''"
  note claim = malformed_size_becomes_error_rejection
  have e1: "parse_size ''10XB'' = Inl ValueError" by code_simp
  have e2: "parse_size ''ten'' = Inl ValueError" by code_simp
  have st: "os_stat five_files ?p = Inr (stat_of 100 30)" by code_simp
  have x: "check w0 (stat_of 100 30) ?p bad_limit_filters Extension = Passes" by code_simp
  have l: "size_limit bad_limit_filters = Some ''10XB''"
    by (simp add: bad_limit_filters_def no_filters_def)
  have b: "\<forall>b \<in> set [Extension, MaxSize].
      check w0 (stat_of 100 30) ?p bad_min_filters b = Passes"
    by code_simp
  have m: "min_size bad_min_filters = Some ''ten''"
    by (simp add: bad_min_filters_def no_filters_def)
  have f: "os_path_isfile (children ?r) ?j" by code_simp
  have n1: "\<not> dry_run (real_run bad_limit_filters)" by (simp add: real_run_def)
  have n2: "\<not> dry_run (real_run bad_min_filters)" by (simp add: real_run_def)
  have st': "os_stat (children ?r) ?j = Inr (stat_of 100 30)" by code_simp
  have x': "check w0 (stat_of 100 30) ?j (filters (real_run bad_limit_filters)) Extension =
      Passes"
    by code_simp
  have l': "size_limit (filters (real_run bad_limit_filters)) = Some ''10XB''"
    by (simp add: real_run_def l)
  have b': "\<forall>b \<in> set [Extension, MaxSize].
      check w0 (stat_of 100 30) ?j (filters (real_run bad_min_filters)) b = Passes"
    by code_simp
  have m': "min_size (filters (real_run bad_min_filters)) = Some ''ten''"
    by (simp add: real_run_def m)
  have "should_archive_try w0 five_files ?p bad_limit_filters = Inl ValueError \<and>
        should_archive w0 five_files ?p bad_limit_filters =
          (False, [audit_log FILTER_CHECK ?p ERROR (FilterCheckFailed ValueError)])"
    using claim
      [where lim = "''10XB''" and e = ValueError and d = five_files and p = ?p
         and st = "stat_of 100 30" and w = w0 and flt = bad_limit_filters]
      e1 st x l
    by blast
  moreover have "should_archive w0 five_files ?p bad_min_filters =
          (False, [audit_log FILTER_CHECK ?p ERROR (FilterCheckFailed ValueError)])"
    using claim
      [where lim = "''ten''" and e = ValueError and d = five_files and p = ?p
         and st = "stat_of 100 30" and w = w0 and flt = bad_min_filters]
      e2 st b m
    by blast
  moreover have "process_files w0 (real_run bad_limit_filters) [''/data'']
       [''/data'', ''arch''] (''a.txt'' # [''b.TXT'', ''old'']) ?r =
     process_files w0 (real_run bad_limit_filters) [''/data''] [''/data'', ''arch'']
       [''b.TXT'', ''old'']
       (?r\<lparr>skipped := skipped ?r + 1,
           audit := audit ?r @
             [audit_log FILTER_CHECK ?j ERROR (FilterCheckFailed ValueError)]\<rparr>)"
    using claim
      [where lim = "''10XB''" and e = ValueError and r = ?r and src = "[''/data'']"
         and name = "''a.txt''" and cfg = "real_run bad_limit_filters"
         and st = "stat_of 100 30" and w = w0 and arch = "[''/data'', ''arch'']"
         and rest = "[''b.TXT'', ''old'']"]
      e1 f n1 st' x' l'
    by blast
  moreover have "process_files w0 (real_run bad_min_filters) [''/data'']
       [''/data'', ''arch''] (''a.txt'' # [''b.TXT'', ''old'']) ?r =
     process_files w0 (real_run bad_min_filters) [''/data''] [''/data'', ''arch'']
       [''b.TXT'', ''old'']
       (?r\<lparr>skipped := skipped ?r + 1,
           audit := audit ?r @
             [audit_log FILTER_CHECK ?j ERROR (FilterCheckFailed ValueError)]\<rparr>)"
    using claim
      [where lim = "''ten''" and e = ValueError and r = ?r and src = "[''/data'']"
         and name = "''a.txt''" and cfg = "real_run bad_min_filters"
         and st = "stat_of 100 30" and w = w0 and arch = "[''/data'', ''arch'']"
         and rest = "[''b.TXT'', ''old'']"]
      e2 f n2 st' b' m'
    by blast
  ultimately show ?thesis
    using e1 e2 st x l b m f n1 n2 by simp
qed

text \<open>
  Claim C6 as stated fails: with the malformed limit "10XB" the check of
  \<^verbatim>\<open>a.txt\<close> does not let the error through but answers \<^verbatim>\<open>False\<close> with an
  ERROR event, and the run over the whole folder ends as a success that counts all
  five files as skipped.
\<close>

theorem malformed_size_swallowed_counterexample:
  "parse_size ''10XB'' = Inl ValueError \<and>
   should_archive w0 five_files [''/data'', ''a.txt''] bad_limit_filters =
     (False, [\<lparr>action = FILTER_CHECK, target = [''/data'', ''a.txt''], status = ERROR,
               message = FilterCheckFailed ValueError\<rparr>]) \<and>
   tally (archive_folder w0 \<lparr>dry_run = False, filters = bad_limit_filters\<rparr> [''/data'']
            data_folder) = Inr (True, 0, 5, 0)"
proof (intro conjI)
  show "parse_size ''10XB'' = Inl ValueError" by code_simp
  show "should_archive w0 five_files [''/data'', ''a.txt''] bad_limit_filters =
     (False, [\<lparr>action = FILTER_CHECK, target = [''/data'', ''a.txt''], status = ERROR,
               message = FilterCheckFailed ValueError\<rparr>])"
    by code_simp
  show "tally (archive_folder w0 \<lparr>dry_run = False, filters = bad_limit_filters\<rparr> [''/data'']
            data_folder) = Inr (True, 0, 5, 0)"
    by code_simp
qed

lemma verdict_result_events:
  "verdict_result p v = Inr (b, evs) \<Longrightarrow>
   (b \<and> evs = []) \<or> (\<exists>m. \<not> b \<and> evs = [audit_log FILTER_CHECK p SKIPPED m])"
  by (cases v) (auto simp: verdict_result_def skip_def)

lemma should_archive_try_events:
  assumes "should_archive_try w d p flt = Inr (b, evs)"
  shows "(b \<and> evs = []) \<or> (\<exists>m. \<not> b \<and> evs = [audit_log FILTER_CHECK p SKIPPED m])"
proof (cases "os_stat d p")
  case (Inl e)
  with assms show ?thesis by (simp add: should_archive_try_def)
next
  case (Inr st)
  with assms
  have "verdict_result p (first_failure (check w st p flt) evaluation_order) = Inr (b, evs)"
    by (simp add: should_archive_try_stat)
  then show ?thesis by (rule verdict_result_events)
qed

lemma should_archive_verdict:
  assumes "os_stat d p = Inr st"
  shows "(first_failure (check w st p flt) evaluation_order = Passes \<longrightarrow>
            should_archive w d p flt = (True, [])) \<and>
         (first_failure (check w st p flt) evaluation_order = Violated m \<longrightarrow>
            should_archive w d p flt = (False, [audit_log FILTER_CHECK p SKIPPED m])) \<and>
         (first_failure (check w st p flt) evaluation_order = Raises e \<longrightarrow>
            should_archive w d p flt =
              (False, [audit_log FILTER_CHECK p ERROR (FilterCheckFailed e)]))"
  by (simp add: should_archive_stat [OF assms] decision_def)

text \<open>
  Claim C7. When the metadata of a file cannot be read, the filter check answers
  \<^verbatim>\<open>False\<close> and logs exactly one FILTER_CHECK event of status ERROR. A file whose
  metadata is read and that is rejected because a constraint is violated gets exactly
  one FILTER_CHECK event of status SKIPPED, so the two rejections differ in their
  status. The orchestrator (outside dry-run mode) counts the unreadable file as
  skipped and leaves it where it is.
\<close>

theorem unreadable_metadata_is_error_rejection:
  "(os_stat d p = Inl e \<longrightarrow>
      should_archive w d p flt =
        (False, [audit_log FILTER_CHECK p ERROR (FilterCheckFailed e)]) \<and>
      (\<forall>ev \<in> set (snd (should_archive w d p flt)). status ev = ERROR \<and> status ev \<noteq> SKIPPED)) \<and>
   (os_stat d p = Inr st \<and>
    first_failure (check w st p flt) evaluation_order = Violated m \<longrightarrow>
      should_archive w d p flt = (False, [audit_log FILTER_CHECK p SKIPPED m]) \<and>
      (\<forall>ev \<in> set (snd (should_archive w d p flt)). status ev = SKIPPED \<and> status ev \<noteq> ERROR)) \<and>
   (should_archive_try w d p flt = Inr (b, evs) \<longrightarrow> (\<forall>ev \<in> set evs. status ev = SKIPPED)) \<and>
   (os_path_isfile (children r) (os_path_join src name) \<and> \<not> dry_run cfg \<and>
    os_stat (children r) (os_path_join src name) = Inl e \<longrightarrow>
      process_file w cfg src arch name r =
        r\<lparr>skipped := skipped r + 1,
          audit := audit r @
            [audit_log FILTER_CHECK (os_path_join src name) ERROR (FilterCheckFailed e)]\<rparr>)"
proof (intro conjI impI)
  assume a: "os_stat d p = Inl e"
  then show "should_archive w d p flt =
      (False, [audit_log FILTER_CHECK p ERROR (FilterCheckFailed e)])"
    by (rule should_archive_no_stat)
  from a show "\<forall>ev \<in> set (snd (should_archive w d p flt)).
      status ev = ERROR \<and> status ev \<noteq> SKIPPED"
    by (simp add: should_archive_no_stat audit_log_def)
next
  assume a: "os_stat d p = Inr st \<and>
    first_failure (check w st p flt) evaluation_order = Violated m"
  then show s: "should_archive w d p flt = (False, [audit_log FILTER_CHECK p SKIPPED m])"
    using should_archive_verdict [of d p st w flt m] by blast
  show "\<forall>ev \<in> set (snd (should_archive w d p flt)).
      status ev = SKIPPED \<and> status ev \<noteq> ERROR"
    by (simp add: s audit_log_def)
next
  assume "should_archive_try w d p flt = Inr (b, evs)"
  from should_archive_try_events [OF this] show "\<forall>ev \<in> set evs. status ev = SKIPPED"
    by (auto simp: audit_log_def)
next
  assume a: "os_path_isfile (children r) (os_path_join src name) \<and> \<not> dry_run cfg \<and>
    os_stat (children r) (os_path_join src name) = Inl e"
  then have "should_archive w (children r) (os_path_join src name) (filters cfg) =
      (False, [audit_log FILTER_CHECK (os_path_join src name) ERROR (FilterCheckFailed e)])"
    by (simp add: should_archive_no_stat)
  with a show "process_file w cfg src arch name r =
      r\<lparr>skipped := skipped r + 1,
        audit := audit r @
          [audit_log FILTER_CHECK (os_path_join src name) ERROR (FilterCheckFailed e)]\<rparr>"
    by (simp add: process_file_rejected)
qed

theorem unreadable_metadata_is_error_rejection_witness:
  "os_stat ghost_folder [''/data'', ''gone.txt''] = Inl OSError \<and>
   os_path_isfile (children (fresh_run ghost_folder)) (os_path_join [''/data''] ''gone.txt'') \<and>
   \<not> dry_run \<lparr>dry_run = False, filters = txt_filters\<rparr> \<and>
   should_archive w0 ghost_folder [''/data'', ''gone.txt''] txt_filters =
     (False, [audit_log FILTER_CHECK [''/data'', ''gone.txt''] ERROR (FilterCheckFailed OSError)]) \<and>
   os_stat five_files [''/data'', ''notes.csv''] = Inr (stat_of 300 30) \<and>
   first_failure (check w0 (stat_of 300 30) [''/data'', ''notes.csv''] txt_filters)
     evaluation_order = Violated (ExtensionNotAllowed ''.csv'') \<and>
   should_archive w0 five_files [''/data'', ''notes.csv''] txt_filters =
     (False, [audit_log FILTER_CHECK [''/data'', ''notes.csv''] SKIPPED
                (ExtensionNotAllowed ''.csv'')]) \<and>
   should_archive_try w0 five_files [''/data'', ''notes.csv''] txt_filters =
     Inr (False, [audit_log FILTER_CHECK [''/data'', ''notes.csv''] SKIPPED
                    (ExtensionNotAllowed ''.csv'')]) \<and>
   status (audit_log FILTER_CHECK [''/data'', ''notes.csv''] SKIPPED
             (ExtensionNotAllowed ''.csv'')) = SKIPPED \<and>
   process_file w0 \<lparr>dry_run = False, filters = txt_filters\<rparr> [''/data'']
       [''/data'', stamp w0] ''gone.txt'' (fresh_run ghost_folder) =
     (fresh_run ghost_folder)
       \<lparr>skipped := 1,
         audit := [audit_log FILTER_CHECK [''/data'', ''gone.txt''] ERROR
                     (FilterCheckFailed OSError)]\<rparr>"
proof -
  let ?p = "[''/data'', ''gone.txt'']" and ?q = "[''/data'', ''notes.csv'']"
  let ?cfg = "\<lparr>dry_run = False, filters = txt_filters\<rparr>"
  note claim = unreadable_metadata_is_error_rejection
  have j: "os_path_join [''/data''] ''gone.txt'' = ?p"
    by (simp add: os_path_join_def)
  have s: "os_stat ghost_folder ?p = Inl OSError" by code_simp
  have sq: "os_stat five_files ?q = Inr (stat_of 300 30)" by code_simp
  have v: "first_failure (check w0 (stat_of 300 30) ?q txt_filters) evaluation_order =
      Violated (ExtensionNotAllowed ''.csv'')"
    by code_simp
  have f: "os_path_isfile (children (fresh_run ghost_folder)) ?p" by code_simp
  have n: "\<not> dry_run ?cfg" by simp
  have t: "should_archive_try w0 five_files ?q txt_filters =
     Inr (False, [audit_log FILTER_CHECK ?q SKIPPED (ExtensionNotAllowed ''.csv'')])"
    by code_simp
  have c: "children (fresh_run ghost_folder) = ghost_folder"
    by (simp add: fresh_run_def)
  have "should_archive w0 ghost_folder ?p txt_filters =
     (False, [audit_log FILTER_CHECK ?p ERROR (FilterCheckFailed OSError)])"
    using claim [where d = ghost_folder and p = ?p and e = OSError and w = w0
        and flt = txt_filters] s
    by blast
  moreover have "should_archive w0 five_files ?q txt_filters =
     (False, [audit_log FILTER_CHECK ?q SKIPPED (ExtensionNotAllowed ''.csv'')])"
    using claim [where d = five_files and p = ?q and st = "stat_of 300 30" and w = w0
        and flt = txt_filters and m = "ExtensionNotAllowed ''.csv''"] sq v
    by blast
  moreover have "status (audit_log FILTER_CHECK ?q SKIPPED (ExtensionNotAllowed ''.csv'')) =
      SKIPPED"
    using claim [where w = w0 and d = five_files and p = ?q and flt = txt_filters
        and b = False
        and evs = "[audit_log FILTER_CHECK ?q SKIPPED (ExtensionNotAllowed ''.csv'')]"] t
    by simp
  moreover have "process_file w0 ?cfg [''/data''] [''/data'', stamp w0] ''gone.txt''
       (fresh_run ghost_folder) =
     (fresh_run ghost_folder)
       \<lparr>skipped := skipped (fresh_run ghost_folder) + 1,
         audit := audit (fresh_run ghost_folder) @
           [audit_log FILTER_CHECK (os_path_join [''/data''] ''gone.txt'') ERROR
              (FilterCheckFailed OSError)]\<rparr>"
    using claim [where r = "fresh_run ghost_folder" and src = "[''/data'']"
        and name = "''gone.txt''" and cfg = ?cfg and e = OSError and w = w0
        and arch = "[''/data'', stamp w0]"] s f n
    unfolding j c
    by blast
  ultimately show ?thesis
    using s sq v f n t unfolding j by (simp add: fresh_run_def)
qed

text \<open>
  Claim C8, as the code has it. The filter check logs one audit event exactly when it
  answers \<^verbatim>\<open>False\<close> and none when it admits the file; every event is a
  FILTER_CHECK on the checked path. The event has status SKIPPED, with the reason of
  the first violated constraint, when a constraint is violated; it has status ERROR,
  with the error, when the metadata cannot be read or a constraint cannot be
  evaluated; a file on which every constraint passes is admitted without an event.
  The check is a function of the world, the folder, the path and the filters that
  changes none of them.
\<close>

theorem should_archive_events:
  "length (snd (should_archive w d p flt)) = (if fst (should_archive w d p flt) then 0 else 1) \<and>
   (\<forall>ev \<in> set (snd (should_archive w d p flt)).
      action ev = FILTER_CHECK \<and> target ev = p \<and> (status ev = SKIPPED \<or> status ev = ERROR)) \<and>
   (os_stat d p = Inl e \<longrightarrow>
      should_archive w d p flt =
        (False, [audit_log FILTER_CHECK p ERROR (FilterCheckFailed e)])) \<and>
   (os_stat d p = Inr st \<and> first_failure (check w st p flt) evaluation_order = Raises e \<longrightarrow>
      should_archive w d p flt =
        (False, [audit_log FILTER_CHECK p ERROR (FilterCheckFailed e)])) \<and>
   (os_stat d p = Inr st \<and> first_failure (check w st p flt) evaluation_order = Violated m \<longrightarrow>
      should_archive w d p flt = (False, [audit_log FILTER_CHECK p SKIPPED m])) \<and>
   (os_stat d p = Inr st \<and> first_failure (check w st p flt) evaluation_order = Passes \<longrightarrow>
      should_archive w d p flt = (True, []))"
proof (intro conjI impI)
  show "length (snd (should_archive w d p flt)) =
      (if fst (should_archive w d p flt) then 0 else 1)"
  proof (cases "should_archive_try w d p flt")
    case (Inl e)
    then show ?thesis by (simp add: should_archive_def)
  next
    case (Inr res)
    obtain b evs where res: "res = (b, evs)" by (cases res)
    from should_archive_try_events [OF Inr [unfolded res]] Inr res show ?thesis
      by (auto simp: should_archive_def)
  qed
  show "\<forall>ev \<in> set (snd (should_archive w d p flt)).
      action ev = FILTER_CHECK \<and> target ev = p \<and> (status ev = SKIPPED \<or> status ev = ERROR)"
  proof (cases "should_archive_try w d p flt")
    case (Inl e)
    then show ?thesis by (simp add: should_archive_def audit_log_def)
  next
    case (Inr res)
    obtain b evs where res: "res = (b, evs)" by (cases res)
    from should_archive_try_events [OF Inr [unfolded res]] Inr res show ?thesis
      by (auto simp: should_archive_def audit_log_def)
  qed
next
  assume "os_stat d p = Inl e"
  then show "should_archive w d p flt =
      (False, [audit_log FILTER_CHECK p ERROR (FilterCheckFailed e)])"
    by (rule should_archive_no_stat)
next
  assume "os_stat d p = Inr st \<and>
    first_failure (check w st p flt) evaluation_order = Raises e"
  then show "should_archive w d p flt =
      (False, [audit_log FILTER_CHECK p ERROR (FilterCheckFailed e)])"
    using should_archive_verdict [of d p st w flt m e] by blast
next
  assume "os_stat d p = Inr st \<and>
    first_failure (check w st p flt) evaluation_order = Violated m"
  then show "should_archive w d p flt = (False, [audit_log FILTER_CHECK p SKIPPED m])"
    using should_archive_verdict [of d p st w flt m e] by blast
next
  assume "os_stat d p = Inr st \<and>
    first_failure (check w st p flt) evaluation_order = Passes"
  then show "should_archive w d p flt = (True, [])"
    using should_archive_verdict [of d p st w flt m e] by blast
qed

theorem should_archive_events_witness:
  "fst (should_archive w0 five_files [''/data'', ''a.txt''] txt_filters) \<and>
   length (snd (should_archive w0 five_files [''/data'', ''a.txt''] txt_filters)) = 0 \<and>
   \<not> fst (should_archive w0 five_files [''/data'', ''notes.csv''] txt_filters) \<and>
   length (snd (should_archive w0 five_files [''/data'', ''notes.csv''] txt_filters)) = 1 \<and>
   os_stat ghost_folder [''/data'', ''gone.txt''] = Inl OSError \<and>
   should_archive w0 ghost_folder [''/data'', ''gone.txt''] txt_filters =
     (False, [audit_log FILTER_CHECK [''/data'', ''gone.txt''] ERROR (FilterCheckFailed OSError)]) \<and>
   os_stat five_files [''/data'', ''a.txt''] = Inr (stat_of 100 30) \<and>
   first_failure (check w0 (stat_of 100 30) [''/data'', ''a.txt''] bad_limit_filters)
     evaluation_order = Raises ValueError \<and>
   should_archive w0 five_files [''/data'', ''a.txt''] bad_limit_filters =
     (False, [audit_log FILTER_CHECK [''/data'', ''a.txt''] ERROR (FilterCheckFailed ValueError)]) \<and>
   os_stat five_files [''/data'', ''notes.csv''] = Inr (stat_of 300 30) \<and>
   first_failure (check w0 (stat_of 300 30) [''/data'', ''notes.csv''] txt_filters)
     evaluation_order = Violated (ExtensionNotAllowed ''.csv'') \<and>
   should_archive w0 five_files [''/data'', ''notes.csv''] txt_filters =
     (False, [audit_log FILTER_CHECK [''/data'', ''notes.csv''] SKIPPED
                (ExtensionNotAllowed ''.csv'')]) \<and>
   first_failure (check w0 (stat_of 100 30) [''/data'', ''a.txt''] txt_filters)
     evaluation_order = Passes \<and>
   should_archive w0 five_files [''/data'', ''a.txt''] txt_filters = (True, [])"
proof -
  let ?a = "[''/data'', ''a.txt'']" and ?q = "[''/data'', ''notes.csv'']"
  let ?g = "[''/data'', ''gone.txt'']"
  note claim = should_archive_events
  have a: "fst (should_archive w0 five_files ?a txt_filters)" by code_simp
  have b: "\<not> fst (should_archive w0 five_files ?q txt_filters)" by code_simp
  have sg: "os_stat ghost_folder ?g = Inl OSError" by code_simp
  have sa: "os_stat five_files ?a = Inr (stat_of 100 30)" by code_simp
  have sq: "os_stat five_files ?q = Inr (stat_of 300 30)" by code_simp
  have vr: "first_failure (check w0 (stat_of 100 30) ?a bad_limit_filters) evaluation_order =
      Raises ValueError"
    by code_simp
  have vv: "first_failure (check w0 (stat_of 300 30) ?q txt_filters) evaluation_order =
      Violated (ExtensionNotAllowed ''.csv'')"
    by code_simp
  have vp: "first_failure (check w0 (stat_of 100 30) ?a txt_filters) evaluation_order = Passes"
    by code_simp
  from a claim [of w0 five_files ?a txt_filters]
  have "length (snd (should_archive w0 five_files ?a txt_filters)) = 0"
    by simp
  moreover
  from b claim [of w0 five_files ?q txt_filters]
  have "length (snd (should_archive w0 five_files ?q txt_filters)) = 1"
    by simp
  moreover have "should_archive w0 ghost_folder ?g txt_filters =
     (False, [audit_log FILTER_CHECK ?g ERROR (FilterCheckFailed OSError)])"
    using claim [where w = w0 and d = ghost_folder and p = ?g and flt = txt_filters
        and e = OSError] sg
    by blast
  moreover have "should_archive w0 five_files ?a bad_limit_filters =
     (False, [audit_log FILTER_CHECK ?a ERROR (FilterCheckFailed ValueError)])"
    using claim [where w = w0 and d = five_files and p = ?a and flt = bad_limit_filters
        and st = "stat_of 100 30" and e = ValueError] sa vr
    by blast
  moreover have "should_archive w0 five_files ?q txt_filters =
     (False, [audit_log FILTER_CHECK ?q SKIPPED (ExtensionNotAllowed ''.csv'')])"
    using claim [where w = w0 and d = five_files and p = ?q and flt = txt_filters
        and st = "stat_of 300 30" and m = "ExtensionNotAllowed ''.csv''"] sq vv
    by blast
  moreover have "should_archive w0 five_files ?a txt_filters = (True, [])"
    using claim [where w = w0 and d = five_files and p = ?a and flt = txt_filters
        and st = "stat_of 100 30"] sa vp
    by blast
  ultimately show ?thesis
    using a b sg sa sq vr vv vp by simp
qed

text \<open>
  Claim C8 as stated fails: the admitted file \<^verbatim>\<open>a.txt\<close> leaves the filter check
  without any audit event.
\<close>

theorem admit_emits_no_event_counterexample:
  "should_archive w0 five_files [''/data'', ''a.txt''] txt_filters = (True, []) \<and>
   length (snd (should_archive w0 five_files [''/data'', ''a.txt''] txt_filters)) \<noteq> 1"
proof -
  have "should_archive w0 five_files [''/data'', ''a.txt''] txt_filters = (True, [])"
    by code_simp
  then show ?thesis by simp
qed

section \<open>Properties of the folder run\<close>

lemma process_file_other:
  "\<not> os_path_isfile (children r) (os_path_join src name) \<Longrightarrow>
   process_file w cfg src arch name r = r"
  by (simp add: process_file_def Let_def)

lemma process_file_dry:
  "dry_run cfg \<Longrightarrow> os_path_isfile (children r) (os_path_join src name) \<Longrightarrow>
   process_file w cfg src arch name r =
     r\<lparr>logged := logged r @ [LogInfo (WouldArchive name)], processed := processed r + 1\<rparr>"
  by (simp add: process_file_def Let_def)

lemma process_file_moved:
  assumes "os_path_isfile (children r) (os_path_join src name)" and "\<not> dry_run cfg"
    and "should_archive w (children r) (os_path_join src name) (filters cfg) = (True, evs)"
    and "shutil_move (children r) (os_path_join src name) (os_path_join arch name) = Inr d"
  shows "process_file w cfg src arch name r =
           r\<lparr>children := d, processed := processed r + 1,
             logged := logged r @ [LogDebug (Archived name)],
             audit := audit r @ evs @
               [audit_log FILE_MOVE (os_path_join src name) SUCCESS (ArchivedTo arch)]\<rparr>"
  using assms by (simp add: process_file_def Let_def)

lemma process_file_move_failed:
  assumes "os_path_isfile (children r) (os_path_join src name)" and "\<not> dry_run cfg"
    and "should_archive w (children r) (os_path_join src name) (filters cfg) = (True, evs)"
    and "shutil_move (children r) (os_path_join src name) (os_path_join arch name) = Inl e"
  shows "process_file w cfg src arch name r =
           r\<lparr>failed := failed r + 1,
             logged := logged r @ [LogError (FileFailed name e)],
             audit := audit r @ evs @
               [audit_log FILE_MOVE (os_path_join src name) FAILED (ArchiveFailed e)]\<rparr>"
  using assms by (simp add: process_file_def Let_def)

lemma process_file_counts_one:
  assumes "os_path_isfile (children r) (os_path_join src name)"
  shows "counts_one r (process_file w cfg src arch name r)"
proof (cases "dry_run cfg")
  case True
  with assms show ?thesis by (simp add: process_file_dry counts_one_def)
next
  case False
  obtain b evs where sa:
    "should_archive w (children r) (os_path_join src name) (filters cfg) = (b, evs)"
    by (cases "should_archive w (children r) (os_path_join src name) (filters cfg)")
  show ?thesis
  proof (cases b)
    case False
    with assms \<open>\<not> dry_run cfg\<close> sa show ?thesis
      by (simp add: process_file_rejected counts_one_def)
  next
    case True
    show ?thesis
    proof (cases "shutil_move (children r) (os_path_join src name) (os_path_join arch name)")
      case (Inl e)
      with assms \<open>\<not> dry_run cfg\<close> sa True show ?thesis
        by (simp add: process_file_move_failed counts_one_def)
    next
      case (Inr d)
      with assms \<open>\<not> dry_run cfg\<close> sa True show ?thesis
        by (simp add: process_file_moved counts_one_def)
    qed
  qed
qed

lemma process_file_handled:
  "handled (process_file w cfg src arch name r) =
     handled r + (if os_path_isfile (children r) (os_path_join src name) then 1 else 0)"
proof (cases "os_path_isfile (children r) (os_path_join src name)")
  case True
  from process_file_counts_one [OF this, of w cfg arch] True show ?thesis
    by (auto simp: counts_one_def handled_def)
next
  case False
  then show ?thesis by (simp add: process_file_other)
qed

lemma process_file_mono:
  "processed r \<le> processed (process_file w cfg src arch name r) \<and>
   skipped r \<le> skipped (process_file w cfg src arch name r) \<and>
   failed r \<le> failed (process_file w cfg src arch name r)"
proof (cases "os_path_isfile (children r) (os_path_join src name)")
  case True
  from process_file_counts_one [OF this, of w cfg arch] show ?thesis
    by (auto simp: counts_one_def)
next
  case False
  then show ?thesis by (simp add: process_file_other)
qed

lemma process_files_mono:
  "processed r \<le> processed (process_files w cfg src arch names r) \<and>
   skipped r \<le> skipped (process_files w cfg src arch names r) \<and>
   failed r \<le> failed (process_files w cfg src arch names r)"
proof (induction names arbitrary: r)
  case Nil
  show ?case by simp
next
  case (Cons name names)
  from Cons [of "process_file w cfg src arch name r"]
    process_file_mono [of r w cfg src arch name]
  show ?case by simp
qed

lemma process_files_append:
  "process_files w cfg src arch (xs @ ys) r =
     process_files w cfg src arch ys (process_files w cfg src arch xs r)"
  by (induction xs arbitrary: r) simp_all

lemma basename_join: "os_path_basename (os_path_join p name) = name"
  by (simp add: os_path_basename_def os_path_join_def)

lemma map_of_moved:
  "map_of (map (\<lambda>(k, m). (k, if k = dn then f m else m))
             (filter (\<lambda>(k, _). k \<noteq> name) d)) k' =
     (if k' = name then None
      else map_option (\<lambda>m. if k' = dn then f m else m) (map_of d k'))"
  by (induction d) auto

lemma kind_put_member: "kind (put_member name n dir) = kind dir"
  by (simp add: put_member_def)

lemma shutil_move_isfile:
  assumes "shutil_move d (os_path_join src name) (os_path_join arch name) = Inr d'"
    and "name' \<noteq> name"
  shows "os_path_isfile d' (os_path_join src name') = os_path_isfile d (os_path_join src name')"
proof -
  let ?dn = "os_path_basename (butlast (os_path_join arch name))"
  from assms(1) obtain x y where
    "d' = map (\<lambda>(k, m). (k, if k = ?dn then put_member y x m else m))
            (filter (\<lambda>(k, _). k \<noteq> name) d)"
    by (auto simp: shutil_move_def Let_def basename_join split: option.splits if_splits)
  with assms(2) show ?thesis
    by (cases "map_of d name'")
       (simp_all add: os_path_isfile_def basename_join map_of_moved kind_put_member)
qed

lemma process_file_isfile:
  assumes "name' \<noteq> name"
  shows "os_path_isfile (children (process_file w cfg src arch name r)) (os_path_join src name') =
         os_path_isfile (children r) (os_path_join src name')"
proof (cases "shutil_move (children r) (os_path_join src name) (os_path_join arch name)")
  case (Inl e)
  then show ?thesis
    by (simp add: process_file_def Let_def split: prod.splits bool.splits)
next
  case (Inr d')
  from shutil_move_isfile [OF this assms] Inr show ?thesis
    by (simp add: process_file_def Let_def split: prod.splits bool.splits)
qed

lemma process_files_handled:
  "distinct names \<Longrightarrow>
   handled (process_files w cfg src arch names r) =
     handled r +
     int (length (filter (\<lambda>name. os_path_isfile (children r) (os_path_join src name)) names))"
proof (induction names arbitrary: r)
  case Nil
  show ?case by simp
next
  case (Cons name names)
  let ?r = "process_file w cfg src arch name r"
  from Cons.prems have d: "distinct names" and nin: "name \<notin> set names" by simp_all
  have same: "filter (\<lambda>n. os_path_isfile (children ?r) (os_path_join src n)) names =
              filter (\<lambda>n. os_path_isfile (children r) (os_path_join src n)) names"
  proof (rule filter_cong [OF refl])
    fix n assume "n \<in> set names"
    with nin have "n \<noteq> name" by auto
    then show "os_path_isfile (children ?r) (os_path_join src n) =
               os_path_isfile (children r) (os_path_join src n)"
      by (rule process_file_isfile)
  qed
  from Cons.IH [OF d, of ?r] same show ?case
    by (simp add: process_file_handled)
qed

lemma process_files_dry:
  "dry_run cfg \<Longrightarrow>
   process_files w cfg src arch names r =
     r\<lparr>logged := logged r @
         map (\<lambda>name. LogInfo (WouldArchive name))
           (filter (\<lambda>name. os_path_isfile (children r) (os_path_join src name)) names),
       processed := processed r +
         int (length (filter (\<lambda>name. os_path_isfile (children r) (os_path_join src name)) names))\<rparr>"
proof (induction names arbitrary: r)
  case Nil
  show ?case by simp
next
  case (Cons name names)
  show ?case
  proof (cases "os_path_isfile (children r) (os_path_join src name)")
    case True
    with Cons show ?thesis by (simp add: process_file_dry)
  next
    case False
    with Cons show ?thesis by (simp add: process_file_other)
  qed
qed

lemma os_makedirs_result:
  assumes "os_makedirs w n name = Inr d"
  shows "d = members n \<or>
         (map_of (members n) name = None \<and>
          (\<exists>st. d = members n @ [(name, Node Directory st False [])]))"
  using assms by (auto simp: os_makedirs_def split: if_splits option.splits)

lemma map_of_None_notin: "map_of xs k = None \<Longrightarrow> k \<notin> fst ` set xs"
  by (simp add: map_of_eq_None_iff)

lemma os_makedirs_regular_files:
  assumes "os_makedirs w n name = Inr d"
  shows "regular_files d src = regular_files (members n) src"
proof -
  from os_makedirs_result [OF assms] show ?thesis
  proof
    assume "d = members n"
    then show ?thesis by simp
  next
    assume "map_of (members n) name = None \<and>
            (\<exists>st. d = members n @ [(name, Node Directory st False [])])"
    then obtain st where none: "map_of (members n) name = None"
      and d: "d = members n @ [(name, Node Directory st False [])]" by blast
    let ?d = "members n @ [(name, Node Directory st False [])]"
    have iso: "os_path_isfile ?d (os_path_join src k) =
               os_path_isfile (members n) (os_path_join src k)" for k
      using none
      by (auto simp: os_path_isfile_def basename_join map_add_def split: option.splits)
    have notfile: "\<not> os_path_isfile (members n) (os_path_join src name)"
      using none by (simp add: os_path_isfile_def basename_join)
    have "regular_files ?d src = regular_files (members n) src"
      unfolding regular_files_def os_listdir_def iso
      using notfile by simp
    with d show ?thesis by simp
  qed
qed

lemma os_makedirs_distinct:
  assumes "os_makedirs w n name = Inr d" and "distinct (map fst (members n))"
  shows "distinct (os_listdir d)"
  using os_makedirs_result [OF assms(1)] assms(2)
  by (auto simp: os_listdir_def dest: map_of_None_notin)

lemma archive_folder_run:
  assumes "os_makedirs w n (stamp w) = Inr d" and "\<not> listdir_fails w"
  shows "archive_folder w cfg src (Some n) =
           (let r = process_files w cfg src (os_path_join src (stamp w)) (os_listdir d)
                      (opened src w d)
            in Inr (processed r > 0 \<or> failed r = 0, closed src r))"
  using assms by (simp add: archive_folder_def Let_def opened_def closed_def)

lemma archive_folder_completed:
  assumes "archive_folder w cfg src node = Inr (ok, r')" and "completed r'"
  shows "\<exists>n d. node = Some n \<and> os_makedirs w n (stamp w) = Inr d \<and> \<not> listdir_fails w"
  using assms
  by (auto simp: archive_folder_def Let_def completed_def audit_log_def
      split: option.splits sum.splits if_splits)

lemma closed_fields:
  "processed (closed src r) = processed r" "skipped (closed src r) = skipped r"
  "failed (closed src r) = failed r" "children (closed src r) = children r"
  "completed (closed src r)"
  by (simp_all add: closed_def completed_def audit_log_def)

lemma opened_fields:
  "processed (opened src w d) = 0" "skipped (opened src w d) = 0"
  "failed (opened src w d) = 0" "children (opened src w d) = d"
  by (simp_all add: opened_def)

lemma archive_folder_result:
  assumes "archive_folder w cfg src node = Inr (ok, r')" and "completed r'"
  shows "\<exists>n d. node = Some n \<and> os_makedirs w n (stamp w) = Inr d \<and> \<not> listdir_fails w \<and>
           r' = closed src (process_files w cfg src (os_path_join src (stamp w)) (os_listdir d)
                              (opened src w d)) \<and>
           ok = (processed (process_files w cfg src (os_path_join src (stamp w)) (os_listdir d)
                              (opened src w d)) > 0 \<or>
                 failed (process_files w cfg src (os_path_join src (stamp w)) (os_listdir d)
                              (opened src w d)) = 0)"
proof -
  from archive_folder_completed [OF assms] obtain n d where
    n: "node = Some n" and d: "os_makedirs w n (stamp w) = Inr d" and l: "\<not> listdir_fails w"
    by blast
  from assms(1) archive_folder_run [OF d l, of cfg src] n d l
  show ?thesis by (simp add: Let_def)
qed

lemma returned_completedE:
  assumes "returned_completed res"
  obtains ok r where "res = Inr (ok, r)" and "completed r"
  using assms by (auto simp: returned_completed_def split: sum.splits)

lemma tally_Inr: "tally (Inr (ok, r)) = Inr (ok, processed r, skipped r, failed r)"
  by (simp add: tally_def)

text \<open>
  Claim C5. A run that reached its end reports success exactly when it archived a file
  or no file failed; so it reports failure exactly when some file failed and none was
  archived, and a folder in which every file was skipped is a success.
\<close>

theorem folder_success_predicate:
  "archive_folder w cfg src node = Inr (ok, r) \<and> completed r \<longrightarrow>
     (ok \<longleftrightarrow> processed r > 0 \<or> failed r = 0) \<and>
     (\<not> ok \<longleftrightarrow> failed r > 0 \<and> processed r = 0) \<and>
     (skipped r > 0 \<and> processed r = 0 \<and> failed r = 0 \<longrightarrow> ok)"
proof
  assume a: "archive_folder w cfg src node = Inr (ok, r) \<and> completed r"
  define run_of where
    "run_of d = process_files w cfg src (os_path_join src (stamp w)) (os_listdir d)
                  (opened src w d)" for d
  from a archive_folder_result [of w cfg src node ok r] obtain d where
    r: "r = closed src (run_of d)"
    and ok: "ok = (processed (run_of d) > 0 \<or> failed (run_of d) = 0)"
    unfolding run_of_def by blast
  define r0 where "r0 = run_of d"
  have r0: "r0 = process_files w cfg src (os_path_join src (stamp w)) (os_listdir d)
                (opened src w d)"
    by (simp add: r0_def run_of_def)
  note r = r [folded r0_def] and ok = ok [folded r0_def]
  from process_files_mono [of "opened src w d" w cfg src "os_path_join src (stamp w)"
      "os_listdir d"] r0
  have "0 \<le> processed r0" and "0 \<le> failed r0"
    by (simp_all add: opened_fields)
  with r ok show "(ok \<longleftrightarrow> processed r > 0 \<or> failed r = 0) \<and>
     (\<not> ok \<longleftrightarrow> failed r > 0 \<and> processed r = 0) \<and>
     (skipped r > 0 \<and> processed r = 0 \<and> failed r = 0 \<longrightarrow> ok)"
    by (auto simp: closed_fields)
qed

theorem folder_success_predicate_witness:
  "tally (archive_folder w0 (real_run pdf_filters) [''/data''] data_folder) =
     Inr (True, 0, 5, 0) \<and>
   tally (archive_folder w0 (real_run no_filters) [''/data''] (Some (dir_of locked_only))) =
     Inr (False, 0, 0, 1) \<and>
   tally (archive_folder w0 (real_run no_filters) [''/data''] (Some (dir_of sticky_folder))) =
     Inr (True, 2, 0, 1)"
proof -
  let ?A = "archive_folder w0 (real_run pdf_filters) [''/data''] data_folder"
  let ?B = "archive_folder w0 (real_run no_filters) [''/data''] (Some (dir_of locked_only))"
  let ?C = "archive_folder w0 (real_run no_filters) [''/data''] (Some (dir_of sticky_folder))"
  have ca: "returned_completed ?A" by code_simp
  have cb: "returned_completed ?B" by code_simp
  have cc: "returned_completed ?C" by code_simp
  have ta: "map_sum id snd (tally ?A) = Inr (0, 5, 0)" by code_simp
  have tb: "map_sum id snd (tally ?B) = Inr (0, 0, 1)" by code_simp
  have tc: "map_sum id snd (tally ?C) = Inr (2, 0, 1)" by code_simp
  from ca obtain oka ra where a: "?A = Inr (oka, ra)" and "completed ra"
    by (rule returned_completedE)
  with folder_success_predicate [of w0 "real_run pdf_filters" "[''/data'']" data_folder oka ra]
    ta
  have "tally ?A = Inr (True, 0, 5, 0)"
    by (simp add: tally_Inr)
  moreover
  from cb obtain okb rb where b: "?B = Inr (okb, rb)" and "completed rb"
    by (rule returned_completedE)
  with folder_success_predicate
    [of w0 "real_run no_filters" "[''/data'']" "Some (dir_of locked_only)" okb rb] tb
  have "tally ?B = Inr (False, 0, 0, 1)"
    by (simp add: tally_Inr)
  moreover
  from cc obtain okc rc where c: "?C = Inr (okc, rc)" and "completed rc"
    by (rule returned_completedE)
  with folder_success_predicate
    [of w0 "real_run no_filters" "[''/data'']" "Some (dir_of sticky_folder)" okc rc] tc
  have "tally ?C = Inr (True, 2, 0, 1)"
    by (simp add: tally_Inr)
  ultimately show ?thesis by simp
qed

text \<open>
  Claim C10. In one turn of the loop a regular file raises exactly one of the counters
  processed, skipped, failed by one and leaves the other two alone; any other entry
  leaves the whole state alone. No counter ever decreases while the loop runs. When a
  run over a folder with distinct entry names reaches its end, the three counters are
  non-negative and add up to the number of regular files among the direct children of
  the source folder.
\<close>

theorem counters_account_for_regular_files:
  "(os_path_isfile (children r) (os_path_join src name) \<longrightarrow>
      counts_one r (process_file w cfg src arch name r)) \<and>
   (\<not> os_path_isfile (children r) (os_path_join src name) \<longrightarrow>
      process_file w cfg src arch name r = r) \<and>
   (processed r \<le> processed (process_files w cfg src arch names r) \<and>
    skipped r \<le> skipped (process_files w cfg src arch names r) \<and>
    failed r \<le> failed (process_files w cfg src arch names r)) \<and>
   (archive_folder w cfg src (Some n) = Inr (ok, r') \<and> completed r' \<and>
    distinct (map fst (members n)) \<longrightarrow>
      processed r' + skipped r' + failed r' = int (length (regular_files (members n) src)) \<and>
      0 \<le> processed r' \<and> 0 \<le> skipped r' \<and> 0 \<le> failed r')"
proof (intro conjI impI)
  assume "os_path_isfile (children r) (os_path_join src name)"
  then show "counts_one r (process_file w cfg src arch name r)"
    by (rule process_file_counts_one)
next
  assume "\<not> os_path_isfile (children r) (os_path_join src name)"
  then show "process_file w cfg src arch name r = r"
    by (rule process_file_other)
next
  show "processed r \<le> processed (process_files w cfg src arch names r)"
    "skipped r \<le> skipped (process_files w cfg src arch names r)"
    "failed r \<le> failed (process_files w cfg src arch names r)"
    using process_files_mono [of r w cfg src arch names] by simp_all
next
  assume a: "archive_folder w cfg src (Some n) = Inr (ok, r') \<and> completed r' \<and>
    distinct (map fst (members n))"
  define run_of where
    "run_of d = process_files w cfg src (os_path_join src (stamp w)) (os_listdir d)
                  (opened src w d)" for d
  from a archive_folder_result [of w cfg src "Some n" ok r'] obtain d where
    d: "os_makedirs w n (stamp w) = Inr d" and r': "r' = closed src (run_of d)"
    unfolding run_of_def by blast
  from a have dist: "distinct (os_listdir d)"
    using os_makedirs_distinct [OF d] by simp
  have "handled (opened src w d) = 0"
    by (simp add: handled_def opened_fields)
  then have "handled (run_of d) = int (length (regular_files d src))"
    unfolding run_of_def regular_files_def
    using process_files_handled [OF dist, of w cfg src "os_path_join src (stamp w)"
        "opened src w d"]
    by (simp add: opened_fields)
  then have sum: "handled (run_of d) = int (length (regular_files (members n) src))"
    by (simp add: os_makedirs_regular_files [OF d])
  from process_files_mono [of "opened src w d" w cfg src "os_path_join src (stamp w)"
      "os_listdir d"]
  have nonneg: "0 \<le> processed (run_of d)" "0 \<le> skipped (run_of d)" "0 \<le> failed (run_of d)"
    by (simp_all add: run_of_def opened_fields)
  from sum show "processed r' + skipped r' + failed r' =
      int (length (regular_files (members n) src))"
    by (simp add: r' closed_fields handled_def)
  from nonneg show "0 \<le> processed r'" "0 \<le> skipped r'" "0 \<le> failed r'"
    by (simp_all add: r' closed_fields)
qed

theorem counters_account_for_regular_files_witness:
  "distinct (map fst (members (dir_of five_files))) \<and>
   int (length (regular_files (members (dir_of five_files)) [''/data''])) = 5 \<and>
   tally (archive_folder w0 (real_run txt_filters) [''/data''] (Some (dir_of five_files))) =
     Inr (True, 3, 2, 0) \<and>
   os_path_isfile (children (fresh_run five_files)) (os_path_join [''/data''] ''a.txt'') \<and>
   counts_one (fresh_run five_files)
     (process_file w0 (real_run txt_filters) [''/data''] [''/data'', stamp w0] ''a.txt''
        (fresh_run five_files)) \<and>
   \<not> os_path_isfile (children (fresh_run five_files)) (os_path_join [''/data''] ''old'') \<and>
   process_file w0 (real_run txt_filters) [''/data''] [''/data'', stamp w0] ''old''
     (fresh_run five_files) = fresh_run five_files"
proof -
  let ?X = "archive_folder w0 (real_run txt_filters) [''/data''] (Some (dir_of five_files))"
  note claim = counters_account_for_regular_files
  have dist: "distinct (map fst (members (dir_of five_files)))" by code_simp
  have five: "int (length (regular_files (members (dir_of five_files)) [''/data''])) = 5"
    by code_simp
  have t: "tally ?X = Inr (True, 3, 2, 0)" by code_simp
  have c: "returned_completed ?X" by code_simp
  have f1: "os_path_isfile (children (fresh_run five_files)) (os_path_join [''/data''] ''a.txt'')"
    by code_simp
  have f2: "\<not> os_path_isfile (children (fresh_run five_files)) (os_path_join [''/data''] ''old'')"
    by code_simp
  from c obtain ok r' where x: "?X = Inr (ok, r')" and cr: "completed r'"
    by (rule returned_completedE)
  from claim [where w = w0 and cfg = "real_run txt_filters" and src = "[''/data'']"
      and n = "dir_of five_files" and ok = ok and r' = r'] x cr dist
  have "processed r' + skipped r' + failed r' =
      int (length (regular_files (members (dir_of five_files)) [''/data'']))"
    by blast
  moreover
  from claim [where r = "fresh_run five_files" and src = "[''/data'']" and name = "''a.txt''"
      and w = w0 and cfg = "real_run txt_filters" and arch = "[''/data'', stamp w0]"] f1
  have "counts_one (fresh_run five_files)
     (process_file w0 (real_run txt_filters) [''/data''] [''/data'', stamp w0] ''a.txt''
        (fresh_run five_files))"
    by blast
  moreover
  from claim [where r = "fresh_run five_files" and src = "[''/data'']" and name = "''old''"
      and w = w0 and cfg = "real_run txt_filters" and arch = "[''/data'', stamp w0]"] f2
  have "process_file w0 (real_run txt_filters) [''/data''] [''/data'', stamp w0] ''old''
     (fresh_run five_files) = fresh_run five_files"
    by blast
  ultimately show ?thesis
    using dist five t f1 f2 by blast
qed

text \<open>
  Claim C9. When the move of an admitted file raises, the turn of the loop adds one to
  \<open>failed\<close>, logs the error, appends a FILE_MOVE event of status FAILED, and the loop
  goes on with the remaining entries from that state. Whatever happens to single
  files, a run whose archive directory could be created and whose folder could be
  listed reaches its end.
\<close>

theorem move_failure_does_not_abort:
  "(os_path_isfile (children r) (os_path_join src name) \<and> \<not> dry_run cfg \<and>
    should_archive w (children r) (os_path_join src name) (filters cfg) = (True, evs) \<and>
    shutil_move (children r) (os_path_join src name) (os_path_join arch name) = Inl e \<longrightarrow>
      process_files w cfg src arch (name # rest) r =
        process_files w cfg src arch rest
          (r\<lparr>failed := failed r + 1,
             logged := logged r @ [LogError (FileFailed name e)],
             audit := audit r @ evs @
               [audit_log FILE_MOVE (os_path_join src name) FAILED (ArchiveFailed e)]\<rparr>)) \<and>
   (os_makedirs w n (stamp w) = Inr d \<and> \<not> listdir_fails w \<longrightarrow>
      returned_completed (archive_folder w cfg src (Some n)))"
proof (intro conjI impI)
  assume "os_path_isfile (children r) (os_path_join src name) \<and> \<not> dry_run cfg \<and>
    should_archive w (children r) (os_path_join src name) (filters cfg) = (True, evs) \<and>
    shutil_move (children r) (os_path_join src name) (os_path_join arch name) = Inl e"
  then show "process_files w cfg src arch (name # rest) r =
        process_files w cfg src arch rest
          (r\<lparr>failed := failed r + 1,
             logged := logged r @ [LogError (FileFailed name e)],
             audit := audit r @ evs @
               [audit_log FILE_MOVE (os_path_join src name) FAILED (ArchiveFailed e)]\<rparr>)"
    by (simp add: process_file_move_failed)
next
  assume "os_makedirs w n (stamp w) = Inr d \<and> \<not> listdir_fails w"
  then show "returned_completed (archive_folder w cfg src (Some n))"
    by (simp add: archive_folder_run Let_def returned_completed_def closed_fields)
qed

theorem move_failure_does_not_abort_witness:
  "os_path_isfile (children (fresh_run sticky_folder)) (os_path_join [''/data''] ''locked.txt'') \<and>
   \<not> dry_run (real_run no_filters) \<and>
   should_archive w0 (children (fresh_run sticky_folder))
     (os_path_join [''/data''] ''locked.txt'') (filters (real_run no_filters)) = (True, []) \<and>
   shutil_move (children (fresh_run sticky_folder)) (os_path_join [''/data''] ''locked.txt'')
     (os_path_join [''/data'', ''arch''] ''locked.txt'') = Inl OSError \<and>
   process_files w0 (real_run no_filters) [''/data''] [''/data'', ''arch'']
       (''locked.txt'' # [''c.txt'', ''d.txt'']) (fresh_run sticky_folder) =
     process_files w0 (real_run no_filters) [''/data''] [''/data'', ''arch'']
       [''c.txt'', ''d.txt'']
       ((fresh_run sticky_folder)
          \<lparr>failed := failed (fresh_run sticky_folder) + 1,
            logged := logged (fresh_run sticky_folder) @
              [LogError (FileFailed ''locked.txt'' OSError)],
            audit := audit (fresh_run sticky_folder) @ [] @
              [audit_log FILE_MOVE (os_path_join [''/data''] ''locked.txt'') FAILED
                 (ArchiveFailed OSError)]\<rparr>) \<and>
   os_makedirs w0 (dir_of sticky_folder) (stamp w0) =
     Inr (sticky_folder @
          [(stamp w0, Node Directory
                        (Some \<lparr>st_size = 0, st_mtime = now w0, st_ctime = now w0\<rparr>)
                        False [])]) \<and>
   \<not> listdir_fails w0 \<and>
   returned_completed
     (archive_folder w0 (real_run no_filters) [''/data''] (Some (dir_of sticky_folder))) \<and>
   tally (archive_folder w0 (real_run no_filters) [''/data''] (Some (dir_of sticky_folder))) =
     Inr (True, 2, 0, 1)"
proof -
  let ?r = "fresh_run sticky_folder" and ?cfg = "real_run no_filters"
  let ?d = "sticky_folder @
          [(stamp w0, Node Directory
                        (Some \<lparr>st_size = 0, st_mtime = now w0, st_ctime = now w0\<rparr>)
                        False [])]"
  note claim = move_failure_does_not_abort
  have f: "os_path_isfile (children ?r) (os_path_join [''/data''] ''locked.txt'')"
    by code_simp
  have n: "\<not> dry_run ?cfg" by (simp add: real_run_def)
  have a: "should_archive w0 (children ?r) (os_path_join [''/data''] ''locked.txt'')
     (filters ?cfg) = (True, [])"
    by code_simp
  have m: "shutil_move (children ?r) (os_path_join [''/data''] ''locked.txt'')
     (os_path_join [''/data'', ''arch''] ''locked.txt'') = Inl OSError"
    by code_simp
  have mk: "os_makedirs w0 (dir_of sticky_folder) (stamp w0) = Inr ?d"
    by code_simp
  have l: "\<not> listdir_fails w0" by (simp add: w0_def)
  have t: "tally (archive_folder w0 ?cfg [''/data''] (Some (dir_of sticky_folder))) =
     Inr (True, 2, 0, 1)"
    by code_simp
  from claim [where r = ?r and src = "[''/data'']" and name = "''locked.txt''" and cfg = ?cfg
      and w = w0 and evs = "[]" and arch = "[''/data'', ''arch'']" and e = OSError
      and rest = "[''c.txt'', ''d.txt'']"] f n a m
  have step: "process_files w0 ?cfg [''/data''] [''/data'', ''arch'']
       (''locked.txt'' # [''c.txt'', ''d.txt'']) ?r =
     process_files w0 ?cfg [''/data''] [''/data'', ''arch''] [''c.txt'', ''d.txt'']
       (?r\<lparr>failed := failed ?r + 1,
           logged := logged ?r @ [LogError (FileFailed ''locked.txt'' OSError)],
           audit := audit ?r @ [] @
             [audit_log FILE_MOVE (os_path_join [''/data''] ''locked.txt'') FAILED
                (ArchiveFailed OSError)]\<rparr>)"
    by blast
  from claim [where w = w0 and n = "dir_of sticky_folder" and d = ?d and cfg = ?cfg
      and src = "[''/data'']"] mk l
  have "returned_completed (archive_folder w0 ?cfg [''/data''] (Some (dir_of sticky_folder)))"
    by blast
  with step show ?thesis
    using f n a m mk l t by blast
qed

lemma process_files_dry_filters:
  assumes "dry_run cfg" and "dry_run cfg'"
  shows "process_files w cfg' src arch names r = process_files w cfg src arch names r"
  by (simp add: process_files_dry [OF assms(1)] process_files_dry [OF assms(2)])

text \<open>
  Claim C1, as the code has it. In dry-run mode a run whose archive directory could be
  created and whose folder could be listed succeeds and leaves the folder as the
  creation of the archive directory left it (the children as before, or followed by
  the new empty directory); no file is checked or moved, so the audit trail holds the
  start, creation and completion events only. The filters are not consulted: the run
  is the same for any other filters, \<open>processed\<close> is the number of all regular files
  among the direct children, and \<open>skipped\<close> and \<open>failed\<close> are 0.
\<close>

theorem dry_run_counts_every_regular_file:
  "dry_run cfg \<and> os_makedirs w n (stamp w) = Inr d \<and> \<not> listdir_fails w \<longrightarrow>
     (\<exists>r. archive_folder w cfg src (Some n) = Inr (True, r) \<and>
          children r = d \<and>
          (d = members n \<or> (\<exists>st. d = members n @ [(stamp w, Node Directory st False [])])) \<and>
          processed r = int (length (regular_files (members n) src)) \<and>
          skipped r = 0 \<and> failed r = 0 \<and>
          audit r =
            [audit_log FOLDER_START src STARTED FolderStarted,
             audit_log FOLDER_CREATE (os_path_join src (stamp w)) SUCCESS ArchiveDirCreated,
             audit_log FOLDER_COMPLETE src COMPLETED
               (Summary (int (length (regular_files (members n) src))) 0 0)]) \<and>
     archive_folder w (cfg\<lparr>filters := flt\<rparr>) src (Some n) = archive_folder w cfg src (Some n)"
proof (intro impI conjI)
  assume a: "dry_run cfg \<and> os_makedirs w n (stamp w) = Inr d \<and> \<not> listdir_fails w"
  then have dry: "dry_run cfg" and d: "os_makedirs w n (stamp w) = Inr d"
    and l: "\<not> listdir_fails w" by simp_all
  let ?k = "int (length (regular_files (members n) src))"
  define r0 where
    "r0 = process_files w cfg src (os_path_join src (stamp w)) (os_listdir d) (opened src w d)"
  have k: "int (length (filter (\<lambda>name. os_path_isfile d (os_path_join src name))
             (os_listdir d))) = ?k"
    using os_makedirs_regular_files [OF d, of src] by (simp add: regular_files_def)
  have r0: "r0 = (opened src w d)
      \<lparr>logged := logged (opened src w d) @
          map (\<lambda>name. LogInfo (WouldArchive name))
            (filter (\<lambda>name. os_path_isfile d (os_path_join src name)) (os_listdir d)),
        processed := ?k\<rparr>"
    unfolding r0_def process_files_dry [OF dry] by (simp add: opened_fields k)
  have p: "processed r0 = ?k" and s: "skipped r0 = 0" and f: "failed r0 = 0"
    and c: "children r0 = d"
    by (simp_all add: r0 opened_fields)
  have au: "audit r0 = audit (opened src w d)"
    by (simp add: r0)
  have res: "archive_folder w cfg src (Some n) = Inr (True, closed src r0)"
    using f by (simp add: archive_folder_run [OF d l] Let_def r0_def)
  have "children (closed src r0) = d \<and>
        processed (closed src r0) = ?k \<and> skipped (closed src r0) = 0 \<and>
        failed (closed src r0) = 0 \<and>
        audit (closed src r0) =
          [audit_log FOLDER_START src STARTED FolderStarted,
           audit_log FOLDER_CREATE (os_path_join src (stamp w)) SUCCESS ArchiveDirCreated,
           audit_log FOLDER_COMPLETE src COMPLETED (Summary ?k 0 0)]"
    by (simp add: closed_fields p s f c) (simp add: closed_def au opened_def p s f)
  moreover from os_makedirs_result [OF d]
  have "d = members n \<or> (\<exists>st. d = members n @ [(stamp w, Node Directory st False [])])"
    by blast
  ultimately show "\<exists>r. archive_folder w cfg src (Some n) = Inr (True, r) \<and>
          children r = d \<and>
          (d = members n \<or> (\<exists>st. d = members n @ [(stamp w, Node Directory st False [])])) \<and>
          processed r = ?k \<and> skipped r = 0 \<and> failed r = 0 \<and>
          audit r =
            [audit_log FOLDER_START src STARTED FolderStarted,
             audit_log FOLDER_CREATE (os_path_join src (stamp w)) SUCCESS ArchiveDirCreated,
             audit_log FOLDER_COMPLETE src COMPLETED (Summary ?k 0 0)]"
    using res by blast
  have "dry_run (cfg\<lparr>filters := flt\<rparr>)" using dry by simp
  from process_files_dry_filters [OF dry this]
  show "archive_folder w (cfg\<lparr>filters := flt\<rparr>) src (Some n) =
        archive_folder w cfg src (Some n)"
    by (simp add: archive_folder_run [OF d l] Let_def)
qed

theorem dry_run_counts_every_regular_file_witness:
  "dry_run (rehearsal txt_filters) \<and>
   os_makedirs w0 (dir_of five_files) (stamp w0) =
     Inr (five_files @
          [(stamp w0, Node Directory
                        (Some \<lparr>st_size = 0, st_mtime = now w0, st_ctime = now w0\<rparr>)
                        False [])]) \<and>
   \<not> listdir_fails w0 \<and>
   int (length (regular_files (members (dir_of five_files)) [''/data''])) = 5 \<and>
   tally (archive_folder w0 (rehearsal txt_filters) [''/data''] (Some (dir_of five_files))) =
     Inr (True, 5, 0, 0) \<and>
   archive_folder w0 (rehearsal pdf_filters) [''/data''] (Some (dir_of five_files)) =
     archive_folder w0 (rehearsal txt_filters) [''/data''] (Some (dir_of five_files))"
proof -
  let ?cfg = "rehearsal txt_filters"
  let ?d = "five_files @
          [(stamp w0, Node Directory
                        (Some \<lparr>st_size = 0, st_mtime = now w0, st_ctime = now w0\<rparr>)
                        False [])]"
  note claim = dry_run_counts_every_regular_file
    [where cfg = ?cfg and w = w0 and n = "dir_of five_files" and d = ?d
       and src = "[''/data'']" and flt = pdf_filters]
  have dry: "dry_run ?cfg" by (simp add: rehearsal_def)
  have mk: "os_makedirs w0 (dir_of five_files) (stamp w0) = Inr ?d" by code_simp
  have l: "\<not> listdir_fails w0" by (simp add: w0_def)
  have five: "int (length (regular_files (members (dir_of five_files)) [''/data''])) = 5"
    by code_simp
  have upd: "?cfg\<lparr>filters := pdf_filters\<rparr> = rehearsal pdf_filters"
    by (simp add: rehearsal_def)
  from claim dry mk l obtain r where
    "archive_folder w0 ?cfg [''/data''] (Some (dir_of five_files)) = Inr (True, r)"
    and "processed r = int (length (regular_files (members (dir_of five_files)) [''/data'']))"
    and "skipped r = 0" and "failed r = 0"
    by blast
  with five
  have "tally (archive_folder w0 ?cfg [''/data''] (Some (dir_of five_files))) =
      Inr (True, 5, 0, 0)"
    by (simp add: tally_Inr)
  moreover from claim dry mk l
  have "archive_folder w0 (rehearsal pdf_filters) [''/data''] (Some (dir_of five_files)) =
      archive_folder w0 ?cfg [''/data''] (Some (dir_of five_files))"
    unfolding upd by blast
  ultimately show ?thesis
    using dry mk l five by blast
qed

text \<open>
  Claim C1 as stated fails on the count: of the five regular files of the folder the
  filters admit three (\<^verbatim>\<open>a.txt\<close>, \<^verbatim>\<open>b.TXT\<close> and \<^verbatim>\<open>c.txt\<close>), and the real run
  archives these three and skips two, but the dry run reports five processed files.
\<close>

theorem dry_run_ignores_filters_counterexample:
  "fst (should_archive w0 five_files [''/data'', ''a.txt''] txt_filters) \<and>
   fst (should_archive w0 five_files [''/data'', ''b.TXT''] txt_filters) \<and>
   \<not> fst (should_archive w0 five_files [''/data'', ''notes.csv''] txt_filters) \<and>
   fst (should_archive w0 five_files [''/data'', ''c.txt''] txt_filters) \<and>
   \<not> fst (should_archive w0 five_files [''/data'', ''README''] txt_filters) \<and>
   tally (archive_folder w0 (real_run txt_filters) [''/data''] (Some (dir_of five_files))) =
     Inr (True, 3, 2, 0) \<and>
   tally (archive_folder w0 (rehearsal txt_filters) [''/data''] (Some (dir_of five_files))) =
     Inr (True, 5, 0, 0) \<and>
   tally (archive_folder w0 (rehearsal txt_filters) [''/data''] (Some (dir_of five_files))) \<noteq>
     Inr (True, 3, 0, 0)"
proof -
  have v: "fst (should_archive w0 five_files [''/data'', ''a.txt''] txt_filters) \<and>
   fst (should_archive w0 five_files [''/data'', ''b.TXT''] txt_filters) \<and>
   \<not> fst (should_archive w0 five_files [''/data'', ''notes.csv''] txt_filters) \<and>
   fst (should_archive w0 five_files [''/data'', ''c.txt''] txt_filters) \<and>
   \<not> fst (should_archive w0 five_files [''/data'', ''README''] txt_filters)"
    by code_simp
  have real: "tally (archive_folder w0 (real_run txt_filters) [''/data'']
      (Some (dir_of five_files))) = Inr (True, 3, 2, 0)"
    by code_simp
  have dry: "tally (archive_folder w0 (rehearsal txt_filters) [''/data'']
      (Some (dir_of five_files))) = Inr (True, 5, 0, 0)"
    by code_simp
  from v real dry show ?thesis by simp
qed

end
